theory Spec2Isabelle
  imports Main "HOL-Library.Word" "HOL-Library.Signed_Division" "HOL-Library.Code_Target_Numeral"
begin

section \<open>The RoboCup player gateway (player.cpp)\<close>

text \<open>
  A shallow embedding of \<^verbatim>\<open>projects/samples/contests/robocup/controllers/player/player.cpp\<close>:
  the class \<^verbatim>\<open>PlayerServer\<close> and the static helpers it calls. Everything the class reads
  from outside itself (the Webots robot, the socket, the clock, the protobuf codec, the
  quota files of the team mates) is an explicit argument. A division by zero, a signed
  overflow of the quota sum, the use of an unset variable, a write past the receive buffer
  and an array allocation of negative size are values of type \<open>error\<close>: the model stops
  there, as the process would or might. Left out: the printouts and the timing of the phases,
  the freeing of memory, and the failures of \<^verbatim>\<open>fopen\<close>, \<^verbatim>\<open>gethostbyname\<close> and of
  the socket set-up.
\<close>

subsection \<open>Data\<close>

type_synonym byte = "8 word"

text \<open>A \<^verbatim>\<open>webots::Device *\<close>. \<^verbatim>\<open>std::set\<close> orders its elements, so the pointers
  are numbers.\<close>
type_synonym device = nat

text \<open>A C++ \<^verbatim>\<open>double\<close>, as its 64 bits: the gateway only copies such values and
  compares one with the constant 1.0.\<close>
type_synonym double = "64 word"

type_synonym vector3 = "double \<times> double \<times> double"

datatype error =
    Division_By_Zero
  | Bad_Array_New_Length
  | Signed_Overflow
  | Indeterminate_Value
  | Out_Of_Bounds

datatype node_type =
    ACCELEROMETER | CAMERA | GYRO | POSITION_SENSOR | TOUCH_SENSOR
  | ROTATIONAL_MOTOR | LINEAR_MOTOR | OTHER_NODE

datatype touch_type = BUMPER | FORCE | FORCE3D

datatype message_type = ERROR_MESSAGE | WARNING_MESSAGE

text \<open>The protobuf message \<^verbatim>\<open>ActuatorRequests\<close>: one repeated field per kind of command,
  each command naming its device.\<close>
record ActuatorRequests =
  motor_positions :: "(string \<times> double) list"
  motor_velocities :: "(string \<times> double) list"
  motor_forces :: "(string \<times> double) list"
  motor_torques :: "(string \<times> double) list"
  motor_pids :: "(string \<times> vector3) list"
  camera_qualities :: "(string \<times> int) list"
  camera_exposures :: "(string \<times> double) list"
  sensor_time_steps :: "(string \<times> int) list"

record CameraMeasurement =
  camera_name :: string
  width :: int
  height :: int
  quality :: int
  image :: "byte list"

text \<open>The protobuf message \<^verbatim>\<open>SensorMeasurements\<close>: the snapshot sent every step.\<close>
record SensorMeasurements =
  time :: "32 word"
  real_time :: "64 word"
  messages :: "(message_type \<times> string) list"
  accelerometers :: "(string \<times> vector3) list"
  bumpers :: "(string \<times> bool) list"
  cameras :: "CameraMeasurement list"
  forces :: "(string \<times> double) list"
  force3ds :: "(string \<times> vector3) list"
  gyros :: "(string \<times> vector3) list"
  position_sensors :: "(string \<times> double) list"

text \<open>What \<^verbatim>\<open>SensorMeasurements::Clear\<close> leaves: every field at its default.\<close>
definition Clear :: SensorMeasurements where
  "Clear = \<lparr>time = 0, real_time = 0, messages = [], accelerometers = [], bumpers = [],
     cameras = [], forces = [], force3ds = [], gyros = [], position_sensors = []\<rparr>"

text \<open>The calls the gateway makes on the robot's actuators, in the order made.\<close>
datatype actuation =
    SetPosition device double
  | SetVelocity device double
  | SetForce device double
  | SetTorque device double
  | SetControlPID device double double double
  | SetExposure device double

text \<open>
  The parts of the program's surroundings that do not change while it runs: the robot's
  device table, the protobuf codec generated from \<^verbatim>\<open>messages.proto\<close>, and the two errno
  constants of the platform. None of them is defined in player.cpp, so each is a
  parameter of the model.
\<close>
record world =
  getDevice :: "string \<Rightarrow> device option"
  getNodeType :: "device \<Rightarrow> node_type"
  getName :: "device \<Rightarrow> string"
  getType :: "device \<Rightarrow> touch_type"
  getWidth :: "device \<Rightarrow> int"
  getHeight :: "device \<Rightarrow> int"
  getBasicTimeStep :: int
  ParseFromArray :: "byte list \<Rightarrow> ActuatorRequests"
  SerializeToArray :: "SensorMeasurements \<Rightarrow> byte list"
  EAGAIN :: int
  EWOULDBLOCK :: int

text \<open>
  The fields of \<^verbatim>\<open>class PlayerServer\<close>, under their own names, followed by the state the
  class reaches through pointers or keeps in a function-local static:
  \<^item> \<open>sampling_period\<close> and \<open>actuations\<close> belong to the robot behind \<^verbatim>\<open>robot\<close>;
  \<^item> \<open>data_transferred\<close> is the static array of \<^verbatim>\<open>bandwidth_usage\<close> (\<open>None\<close> is NULL);
  \<^item> \<open>dispatched\<close> is not in the program: it records each buffer handed to
    \<^verbatim>\<open>ParseFromArray\<close>, so that theorems can speak about what the dispatcher received.
  The two \<^verbatim>\<open>std::set<webots::Device *>\<close> are strictly increasing lists.
\<close>
record PlayerServer =
  allowed_hosts :: "string list"
  port :: int
  player_id :: int
  team :: int
  server_fd :: int
  client_fd :: int
  sensors :: "device list"
  new_sensors :: "device list"
  controller_time :: "32 word"
  recv_buffer :: "byte list"
  recv_index :: int
  recv_size :: int
  content_size :: int
  basic_time_step :: int
  sensor_measurements :: SensorMeasurements
  sampling_period :: "device \<Rightarrow> int"
  actuations :: "actuation list"
  data_transferred :: "int list option"
  dispatched :: "byte list list"

subsection \<open>Small helpers: \<^verbatim>\<open>std::set\<close>, \<^verbatim>\<open>std::to_string\<close>, \<^verbatim>\<open>warn\<close>\<close>

definition set_insert :: "device \<Rightarrow> device list \<Rightarrow> device list" where
  "set_insert d ds = (if d \<in> set ds then ds else insort d ds)"

definition set_erase :: "device \<Rightarrow> device list \<Rightarrow> device list" where
  "set_erase d ds = removeAll d ds"

definition set_count :: "device list \<Rightarrow> device \<Rightarrow> nat" where
  "set_count ds d = (if d \<in> set ds then 1 else 0)"

definition digit_char :: "nat \<Rightarrow> char" where
  "digit_char n = ''0123456789'' ! n"

fun digits :: "nat \<Rightarrow> string" where
  "digits n = (if n < 10 then [digit_char n] else digits (n div 10) @ [digit_char (n mod 10)])"

declare digits.simps [simp del]

definition to_string :: "int \<Rightarrow> string" where
  "to_string i = (if i < 0 then CHR ''-'' # digits (nat (- i)) else digits (nat i))"

definition dq :: string where
  "dq = [CHR 0x22]"

definition warn :: "SensorMeasurements \<Rightarrow> string \<Rightarrow> SensorMeasurements" where
  "warn sm text = sm\<lparr>messages := messages sm @ [(WARNING_MESSAGE, text)]\<rparr>"

definition warning :: "string \<Rightarrow> PlayerServer \<Rightarrow> PlayerServer" where
  "warning text s = s\<lparr>sensor_measurements := warn (sensor_measurements s) text\<rparr>"

subsection \<open>The robot's lookups\<close>

text \<open>Modelled from the spec: the Webots library is not among the sources. The spec's
  \<^verbatim>\<open>resolveDevice(name) -> deviceHandle | none\<close> is \<open>getDevice\<close>; \<^verbatim>\<open>Robot::getMotor\<close> and
  \<^verbatim>\<open>Robot::getCamera\<close> resolve the name and give NULL unless \<^verbatim>\<open>deviceKind\<close> is the one
  asked for.\<close>
definition getMotor :: "world \<Rightarrow> string \<Rightarrow> device option" where
  "getMotor w n =
     (case getDevice w n of
        None \<Rightarrow> None
      | Some d \<Rightarrow>
          if getNodeType w d = ROTATIONAL_MOTOR \<or> getNodeType w d = LINEAR_MOTOR
          then Some d else None)"

definition getCamera :: "world \<Rightarrow> string \<Rightarrow> device option" where
  "getCamera w n =
     (case getDevice w n of
        None \<Rightarrow> None
      | Some d \<Rightarrow> if getNodeType w d = CAMERA then Some d else None)"

text \<open>Modelled from the spec: \<^verbatim>\<open>enable(period)\<close> sets what \<^verbatim>\<open>samplingPeriod(handle)\<close>
  returns; a sensor never enabled has period 0.\<close>
definition enable :: "device \<Rightarrow> int \<Rightarrow> PlayerServer \<Rightarrow> PlayerServer" where
  "enable d p s = s\<lparr>sampling_period := (sampling_period s)(d := p)\<rparr>"

definition getSamplingPeriod :: "PlayerServer \<Rightarrow> device \<Rightarrow> int" where
  "getSamplingPeriod s d = sampling_period s d"

definition actuate :: "actuation \<Rightarrow> PlayerServer \<Rightarrow> PlayerServer" where
  "actuate a s = s\<lparr>actuations := actuations s @ [a]\<rparr>"

subsection \<open>\<^verbatim>\<open>PlayerServer::processBuffer\<close>\<close>

definition motor_position :: "world \<Rightarrow> string \<times> double \<Rightarrow> PlayerServer \<Rightarrow> PlayerServer" where
  "motor_position w c s =
     (case getMotor w (fst c) of
        Some motor \<Rightarrow> actuate (SetPosition motor (snd c)) s
      | None \<Rightarrow> warning (''Motor '' @ dq @ fst c @ dq @ '' not found, position command ignored.'') s)"

definition motor_velocity :: "world \<Rightarrow> string \<times> double \<Rightarrow> PlayerServer \<Rightarrow> PlayerServer" where
  "motor_velocity w c s =
     (case getMotor w (fst c) of
        Some motor \<Rightarrow> actuate (SetVelocity motor (snd c)) s
      | None \<Rightarrow> warning (''Motor '' @ dq @ fst c @ dq @ '' not found, velocity command ignored.'') s)"

definition motor_force :: "world \<Rightarrow> string \<times> double \<Rightarrow> PlayerServer \<Rightarrow> PlayerServer" where
  "motor_force w c s =
     (case getMotor w (fst c) of
        Some motor \<Rightarrow> actuate (SetForce motor (snd c)) s
      | None \<Rightarrow> warning (''Motor '' @ dq @ fst c @ dq @ '' not found, force command ignored.'') s)"

definition motor_torque :: "world \<Rightarrow> string \<times> double \<Rightarrow> PlayerServer \<Rightarrow> PlayerServer" where
  "motor_torque w c s =
     (case getMotor w (fst c) of
        Some motor \<Rightarrow> actuate (SetTorque motor (snd c)) s
      | None \<Rightarrow> warning (''Motor '' @ dq @ fst c @ dq @ '' not found, torque command ignored.'') s)"

definition motor_pid :: "world \<Rightarrow> string \<times> vector3 \<Rightarrow> PlayerServer \<Rightarrow> PlayerServer" where
  "motor_pid w c s =
     (case getMotor w (fst c) of
        Some motor \<Rightarrow>
          (case snd c of (x, y, z) \<Rightarrow> actuate (SetControlPID motor x y z) s)
      | None \<Rightarrow> warning (''Motor '' @ dq @ fst c @ dq @ '' not found, PID command ignored.'') s)"

definition camera_quality :: "world \<Rightarrow> string \<times> int \<Rightarrow> PlayerServer \<Rightarrow> PlayerServer" where
  "camera_quality w c s =
     (case getCamera w (fst c) of
        Some camera \<Rightarrow> warning ''CameraQuality is not yet implemented, ignored.'' s
      | None \<Rightarrow> warning (''Camera '' @ dq @ fst c @ dq @ '' not found, quality command ignored.'') s)"

definition camera_exposure :: "world \<Rightarrow> string \<times> double \<Rightarrow> PlayerServer \<Rightarrow> PlayerServer" where
  "camera_exposure w c s =
     (case getCamera w (fst c) of
        Some camera \<Rightarrow> actuate (SetExposure camera (snd c)) s
      | None \<Rightarrow> warning (''Camera '' @ dq @ fst c @ dq @ '' not found, exposure command ignored.'') s)"

text \<open>
  The body of the last loop of \<^verbatim>\<open>processBuffer\<close>, for one \<^verbatim>\<open>SensorTimeStep\<close>. The two
  sets are updated first, the time step is validated after that, as in the source.
  \<^verbatim>\<open>sensor_time_step % basic_time_step\<close> is C++'s truncating remainder and is undefined
  for a zero divisor.
\<close>
definition sensor_time_step :: "world \<Rightarrow> string \<times> int \<Rightarrow> PlayerServer \<Rightarrow> error + PlayerServer" where
  "sensor_time_step w c s =
     (case getDevice w (fst c) of
        Some device \<Rightarrow>
          (let sensor_time_step = snd c;
               s1 = (if sensor_time_step \<noteq> 0
                     then (if set_count (sensors s) device = 0
                           then s\<lparr>new_sensors := set_insert device (new_sensors s)\<rparr>
                           else s)
                     else s\<lparr>sensors := set_erase device (sensors s)\<rparr>)
           in if sensor_time_step \<noteq> 0 \<and> sensor_time_step < basic_time_step s1
              then Inr (warning (''Time step for '' @ dq @ fst c @ dq
                          @ '' should be greater or equal to '' @ to_string (basic_time_step s1)
                          @ '', ignoring '' @ to_string sensor_time_step @ '' value.'') s1)
              else if basic_time_step s1 = 0 then Inl Division_By_Zero
              else if sensor_time_step smod basic_time_step s1 \<noteq> 0
              then Inr (warning (''Time step for '' @ dq @ fst c @ dq
                          @ '' should be a multiple of '' @ to_string (basic_time_step s1)
                          @ '', ignoring '' @ to_string sensor_time_step @ '' value.'') s1)
              else (case getNodeType w device of
                      ACCELEROMETER \<Rightarrow> Inr (enable device sensor_time_step s1)
                    | CAMERA \<Rightarrow> Inr (enable device sensor_time_step s1)
                    | GYRO \<Rightarrow> Inr (enable device sensor_time_step s1)
                    | POSITION_SENSOR \<Rightarrow> Inr (enable device sensor_time_step s1)
                    | TOUCH_SENSOR \<Rightarrow> Inr (enable device sensor_time_step s1)
                    | _ \<Rightarrow> Inr (warning (''Device '' @ dq @ fst c @ dq
                                  @ '' is not supported, time step command, ignored.'') s1)))
      | None \<Rightarrow> Inr (warning (''Device '' @ dq @ fst c @ dq
                       @ '' not found, time step command, ignored.'') s))"

fun sensor_time_steps_loop ::
  "world \<Rightarrow> (string \<times> int) list \<Rightarrow> PlayerServer \<Rightarrow> error + PlayerServer" where
  "sensor_time_steps_loop w [] s = Inr s"
| "sensor_time_steps_loop w (c # cs) s =
     (case sensor_time_step w c s of
        Inl e \<Rightarrow> Inl e
      | Inr s' \<Rightarrow> sensor_time_steps_loop w cs s')"

text \<open>Each of the seven kinds of actuator command in its own loop, then the loop over the time steps.\<close>
definition apply_requests :: "world \<Rightarrow> ActuatorRequests \<Rightarrow> PlayerServer \<Rightarrow> error + PlayerServer" where
  "apply_requests w actuatorRequests s =
     sensor_time_steps_loop w (sensor_time_steps actuatorRequests)
       (fold (camera_exposure w) (camera_exposures actuatorRequests)
       (fold (camera_quality w) (camera_qualities actuatorRequests)
       (fold (motor_pid w) (motor_pids actuatorRequests)
       (fold (motor_torque w) (motor_torques actuatorRequests)
       (fold (motor_force w) (motor_forces actuatorRequests)
       (fold (motor_velocity w) (motor_velocities actuatorRequests)
       (fold (motor_position w) (motor_positions actuatorRequests) s)))))))"

text \<open>
  \<^verbatim>\<open>processBuffer\<close> parses the first \<^verbatim>\<open>recv_index\<close> bytes of the buffer, resets the
  buffer's bookkeeping and frees the buffer, then applies the requests.
\<close>
definition processBuffer :: "world \<Rightarrow> PlayerServer \<Rightarrow> error + PlayerServer" where
  "processBuffer w s =
     (let payload = take (nat (recv_index s)) (recv_buffer s);
          actuatorRequests = ParseFromArray w payload
      in apply_requests w actuatorRequests
           (s\<lparr>recv_index := 0, content_size := 0, recv_buffer := [],
              dispatched := dispatched s @ [payload]\<rparr>))"

subsection \<open>The socket\<close>

text \<open>
  What the non-blocking socket will answer to the calls of \<^verbatim>\<open>recv\<close>, in order: bytes
  that have arrived (one entry per segment: a call returns bytes of one segment only, and
  at most as many as it asked for), a failure with its errno, or the orderly shutdown of
  the peer. When nothing is listed, \<^verbatim>\<open>recv\<close> fails with \<^verbatim>\<open>EAGAIN\<close>: no data now.
\<close>
datatype recv_event = Recv_Bytes "byte list" | Recv_Fail int | Recv_Shutdown

text \<open>What one call of \<^verbatim>\<open>recv\<close> returns: \<open>n > 0\<close> with the bytes, \<open>-1\<close> with errno, or \<open>0\<close>.\<close>
datatype recv_return = Received "byte list" | Failed int | Closed

text \<open>\<^verbatim>\<open>recv(fd, buffer, len, 0)\<close> on the listed answers: the result and the answers left.\<close>
fun recv :: "world \<Rightarrow> recv_event list \<Rightarrow> nat \<Rightarrow> recv_return \<times> recv_event list" where
  "recv w [] len = (Failed (EAGAIN w), [])"
| "recv w (Recv_Bytes bs # es) len =
     (if bs = [] then recv w es len
      else if length bs \<le> len then (Received bs, es)
      else (Received (take len bs), Recv_Bytes (drop len bs) # es))"
| "recv w (Recv_Fail e # es) len = (Failed e, es)"
| "recv w (Recv_Shutdown # es) len = (Closed, es)"

text \<open>A measure of the answers left, for the termination of \<^verbatim>\<open>receiveData\<close> and \<^verbatim>\<open>receiveMessages\<close>: every call that
  returns bytes uses some up.\<close>
fun pending :: "recv_event list \<Rightarrow> nat" where
  "pending [] = 0"
| "pending (Recv_Bytes bs # es) = Suc (length bs + pending es)"
| "pending (e # es) = Suc (pending es)"

lemma recv_pending:
  "recv w es len = (Received bs, es') \<Longrightarrow> 0 < len \<Longrightarrow> pending es' < pending es"
  by (induction w es len rule: recv.induct) (auto split: if_splits)

lemma recv_pending_le:
  "recv w es len = (r, es') \<Longrightarrow> pending es' \<le> pending es"
  by (induction w es len rule: recv.induct) (auto split: if_splits)

text \<open>The loop of \<^verbatim>\<open>PlayerServer::receiveData\<close> (lines 300 to 318). \<open>buffer\<close> is the \<open>len\<close> bytes of
  memory at the pointer passed in. Every call of \<^verbatim>\<open>recv\<close> is given that same pointer, so the
  bytes of a later call overwrite those of an earlier one from the start of the region. The
  test on errno is the source's disjunction.\<close>
function receiveData_loop ::
  "world \<Rightarrow> nat \<Rightarrow> nat \<Rightarrow> byte list \<Rightarrow> PlayerServer \<Rightarrow> recv_event list
     \<Rightarrow> nat \<times> byte list \<times> PlayerServer \<times> recv_event list" where
  "receiveData_loop w len received buffer s es =
     (if received < len
      then (case recv w es (len - received) of
              (Failed errno, es') \<Rightarrow>
                (if errno \<noteq> EAGAIN w \<or> errno \<noteq> EWOULDBLOCK w
                 then (received, buffer, s\<lparr>client_fd := -1\<rparr>, es')
                 else (received, buffer, s, es'))
            | (Closed, es') \<Rightarrow> (received, buffer, s\<lparr>client_fd := -1\<rparr>, es')
            | (Received bs, es') \<Rightarrow>
                receiveData_loop w len (received + length bs)
                  (bs @ drop (length bs) buffer) s es')
      else (received, buffer, s, es))"
  by pat_completeness auto
termination
  by (relation "measure (\<lambda>(w, len, received, buffer, s, es). pending es)")
     (auto dest: recv_pending[OF sym])

declare receiveData_loop.simps [simp del]

text \<open>\<^verbatim>\<open>receiveData(buffer, length)\<close>: the count returned, the memory region afterwards, the
  server (only \<^verbatim>\<open>client_fd\<close> can change) and the answers left.\<close>
definition receiveData ::
  "world \<Rightarrow> PlayerServer \<Rightarrow> byte list \<Rightarrow> nat \<Rightarrow> recv_event list
     \<Rightarrow> nat \<times> byte list \<times> PlayerServer \<times> recv_event list" where
  "receiveData w s buffer len es = receiveData_loop w len 0 buffer s es"

lemma receiveData_loop_pending:
  "receiveData_loop w len received buffer s es = (n, b, s', es') \<Longrightarrow>
     pending es' \<le> pending es \<and> (received < n \<longrightarrow> pending es' < pending es) \<and> received \<le> n"
proof (induction w len received buffer s es arbitrary: n b s' es' rule: receiveData_loop.induct)
  case (1 w len received buffer s es)
  note run = "1.prems"[unfolded receiveData_loop.simps[of w len received buffer s es]]
  show ?case
  proof (cases "received < len")
    case False
    with run show ?thesis by simp
  next
    case True
    obtain r es1 where r: "recv w es (len - received) = (r, es1)" by (cases "recv w es (len - received)")
    show ?thesis
    proof (cases r)
      case (Received bs)
      from "1.IH"[OF True r[unfolded Received, symmetric] refl] run True r Received
      have "pending es' \<le> pending es1 \<and> (received + length bs < n \<longrightarrow> pending es' < pending es1) \<and> received + length bs \<le> n"
        by simp
      moreover have "pending es1 < pending es"
        using recv_pending[of w es "len - received" bs es1] r Received True by simp
      ultimately show ?thesis by auto
    next
      case (Failed e)
      with run True r recv_pending_le[OF r] show ?thesis by (auto split: if_splits)
    next
      case Closed
      with run True r recv_pending_le[OF r] show ?thesis by (auto split: if_splits)
    qed
  qed
qed

lemma receiveData_pending:
  "receiveData w s buffer len es = (n, b, s', es') \<Longrightarrow> n \<noteq> 0 \<Longrightarrow> pending es' < pending es"
  using receiveData_loop_pending[of w len 0 buffer s es n b s' es'] by (simp add: receiveData_def)

text \<open>\<^verbatim>\<open>content_size = ntohl(content_size)\<close> after the header was received into the memory of
  \<^verbatim>\<open>content_size\<close>: on a host of either byte order the result is the big-endian value of the
  four bytes in memory, read as a 32-bit \<^verbatim>\<open>int\<close>.\<close>
definition ntohl :: "byte list \<Rightarrow> int" where
  "ntohl mem =
     (let v = foldl (\<lambda>a b. a * 256 + uint b) 0 (take 4 mem)
      in if v < 2 ^ 31 then v else v - 2 ^ 32)"

text \<open>\<^verbatim>\<open>PlayerServer::receiveMessages\<close> (lines 274 to 294). The header is received into the memory
  of \<^verbatim>\<open>content_size\<close>, which holds four zero bytes whenever that branch is taken.
  \<^verbatim>\<open>new char[content_size]\<close> throws for a negative size; the contents of the new buffer are
  indeterminate in C++ and zero here. \<^verbatim>\<open>content_size - recv_index\<close> is converted to
  \<^verbatim>\<open>size_t\<close>: were it negative, \<^verbatim>\<open>recv\<close> would be asked to write past the buffer.\<close>
function receiveMessages ::
  "world \<Rightarrow> PlayerServer \<Rightarrow> recv_event list \<Rightarrow> error + PlayerServer \<times> recv_event list" where
  "receiveMessages w s es =
     (if client_fd s = -1 then Inr (s, es)
      else if content_size s = 0
      then (case receiveData w s [0, 0, 0, 0] 4 es of
              (bytes_received, mem, s1, es') \<Rightarrow>
                (let s2 = s1\<lparr>content_size := ntohl mem\<rparr>
                 in if content_size s2 < 0 then Inl Bad_Array_New_Length
                    else (let s3 = s2\<lparr>recv_buffer := replicate (nat (content_size s2)) 0\<rparr>
                          in if bytes_received = 0 then Inr (s3, es')
                             else receiveMessages w s3 es')))
      else if content_size s < recv_index s then Inl Out_Of_Bounds
      else (case receiveData w s (drop (nat (recv_index s)) (recv_buffer s))
                   (nat (content_size s - recv_index s)) es of
              (bytes_received, mem, s1, es') \<Rightarrow>
                (let s2 = s1\<lparr>recv_buffer := take (nat (recv_index s)) (recv_buffer s) @ mem,
                             recv_index := recv_index s + int bytes_received\<rparr>
                 in (case (if recv_index s2 = content_size s2 then processBuffer w s2 else Inr s2) of
                       Inl e \<Rightarrow> Inl e
                     | Inr s3 \<Rightarrow>
                         if bytes_received = 0 then Inr (s3, es')
                         else receiveMessages w s3 es'))))"
  by pat_completeness auto
termination
  apply (relation "measure (\<lambda>(w, s, es). pending es)")
    apply simp
   apply (auto dest: receiveData_pending[OF sym])
  done

declare receiveMessages.simps [simp del]

subsection \<open>What a step reads from outside\<close>

text \<open>The answers of the operating system and of the robot during one call of \<^verbatim>\<open>step\<close>:
  what \<^verbatim>\<open>accept\<close> returns and the peer's host name, what \<^verbatim>\<open>select\<close> returns, what arrives
  on the socket, how many bytes the \<open>k\<close>-th call of \<^verbatim>\<open>send\<close> can take (below 1: the
  call fails with that value), \<^verbatim>\<open>gettimeofday\<close>, the sensors' readings, and the quota files
  of the team mates (one number per line).\<close>
record input =
  accept_fd :: int
  accept_h_name :: string
  select_retval :: int
  arrivals :: "recv_event list"
  send_room :: "nat \<Rightarrow> int"
  tv_sec :: int
  tv_usec :: int
  getValue :: "device \<Rightarrow> double"
  getValues :: "device \<Rightarrow> vector3"
  getImage :: "device \<Rightarrow> byte list"
  quota_files :: "string \<Rightarrow> int list option"

subsection \<open>\<^verbatim>\<open>PlayerServer::prepareSensorMessage\<close>\<close>

text \<open>The conversions of C++ between \<^verbatim>\<open>int\<close> and \<^verbatim>\<open>unsigned int\<close> (32 bits), written out.\<close>
definition to_unsigned :: "int \<Rightarrow> int" where
  "to_unsigned i = i mod 2 ^ 32"

definition to_int :: "int \<Rightarrow> int" where
  "to_int u = (let v = u mod 2 ^ 32 in if v < 2 ^ 31 then v else v - 2 ^ 32)"

text \<open>\<^verbatim>\<open>controller_time % device->getSamplingPeriod()\<close>: \<^verbatim>\<open>controller_time\<close> is a
  \<^verbatim>\<open>uint32_t\<close>, so the period is converted to unsigned; a zero divisor is undefined.\<close>
definition time_mod_period :: "PlayerServer \<Rightarrow> device \<Rightarrow> error + int" where
  "time_mod_period s d =
     (let period = to_unsigned (getSamplingPeriod s d)
      in if period = 0 then Inl Division_By_Zero
         else Inr (uint (controller_time s) mod period))"

text \<open>\<^verbatim>\<open>cv::cvtColor(rgba_mat, rgb_mat, cv::COLOR_BGRA2BGR)\<close>: every fourth byte is dropped.\<close>
fun bgra2bgr :: "byte list \<Rightarrow> byte list" where
  "bgra2bgr (b # g # r # a # rest) = b # g # r # bgra2bgr rest"
| "bgra2bgr _ = []"

text \<open>The bits of the \<^verbatim>\<open>double\<close> 1.0.\<close>
definition one_point_zero :: double where
  "one_point_zero = 0x3FF0000000000000"

text \<open>The body of the loop of \<^verbatim>\<open>prepareSensorMessage\<close> for one device of \<^verbatim>\<open>sensors\<close> (lines
  451 to 560): the chain of dynamic casts is the case distinction on the node type, and a
  device of no such class is passed over.\<close>
definition measure_device ::
  "world \<Rightarrow> input \<Rightarrow> PlayerServer \<Rightarrow> device \<Rightarrow> SensorMeasurements \<Rightarrow> error + SensorMeasurements" where
  "measure_device w i s d sm =
     (case getNodeType w d of
        ACCELEROMETER \<Rightarrow>
          (case time_mod_period s d of
             Inl e \<Rightarrow> Inl e
           | Inr r \<Rightarrow>
               if r \<noteq> 0 then Inr sm
               else Inr (sm\<lparr>accelerometers := accelerometers sm @ [(getName w d, getValues i d)]\<rparr>))
      | CAMERA \<Rightarrow>
          (case time_mod_period s d of
             Inl e \<Rightarrow> Inl e
           | Inr r \<Rightarrow>
               if r \<noteq> 0 then Inr sm
               else Inr (sm\<lparr>cameras := cameras sm @
                      [\<lparr>camera_name = getName w d, width = getWidth w d, height = getHeight w d,
                        quality = -1,
                        image = bgra2bgr (take (nat (getWidth w d * getHeight w d * 4)) (getImage i d))\<rparr>]\<rparr>))
      | GYRO \<Rightarrow>
          (case time_mod_period s d of
             Inl e \<Rightarrow> Inl e
           | Inr r \<Rightarrow>
               if r \<noteq> 0 then Inr sm
               else Inr (sm\<lparr>gyros := gyros sm @ [(getName w d, getValues i d)]\<rparr>))
      | POSITION_SENSOR \<Rightarrow>
          (case time_mod_period s d of
             Inl e \<Rightarrow> Inl e
           | Inr r \<Rightarrow>
               if r \<noteq> 0 then Inr sm
               else Inr (sm\<lparr>position_sensors := position_sensors sm @ [(getName w d, getValue i d)]\<rparr>))
      | TOUCH_SENSOR \<Rightarrow>
          (case time_mod_period s d of
             Inl e \<Rightarrow> Inl e
           | Inr r \<Rightarrow>
               if r \<noteq> 0 then Inr sm
               else (case getType w d of
                       BUMPER \<Rightarrow>
                         Inr (sm\<lparr>bumpers := bumpers sm @ [(getName w d, getValue i d = one_point_zero)]\<rparr>)
                     | FORCE \<Rightarrow>
                         Inr (sm\<lparr>forces := forces sm @ [(getName w d, getValue i d)]\<rparr>)
                     | FORCE3D \<Rightarrow>
                         Inr (sm\<lparr>force3ds := force3ds sm @ [(getName w d, getValues i d)]\<rparr>)))
      | _ \<Rightarrow> Inr sm)"

text \<open>The loop over \<^verbatim>\<open>sensors\<close>, in the order of the set.\<close>
fun measure_devices ::
  "world \<Rightarrow> input \<Rightarrow> PlayerServer \<Rightarrow> device list \<Rightarrow> SensorMeasurements \<Rightarrow> error + SensorMeasurements" where
  "measure_devices w i s [] sm = Inr sm"
| "measure_devices w i s (d # ds) sm =
     (case measure_device w i s d sm of
        Inl e \<Rightarrow> Inl e
      | Inr sm' \<Rightarrow> measure_devices w i s ds sm')"

text \<open>\<^verbatim>\<open>PlayerServer::prepareSensorMessage\<close> (lines 444 to 562).\<close>
definition prepareSensorMessage :: "world \<Rightarrow> input \<Rightarrow> PlayerServer \<Rightarrow> error + PlayerServer" where
  "prepareSensorMessage w i s =
     (let sm = (sensor_measurements s)
                 \<lparr>time := controller_time s,
                  real_time := word_of_int (tv_sec i * 1000 + tv_usec i sdiv 1000)\<rparr>
      in case measure_devices w i s (sensors s) sm of
           Inl e \<Rightarrow> Inl e
         | Inr sm' \<Rightarrow> Inr (s\<lparr>sensor_measurements := sm'\<rparr>))"

subsection \<open>\<^verbatim>\<open>PlayerServer::updateDevices\<close>\<close>

text \<open>\<^verbatim>\<open>PlayerServer::updateDevices\<close> (lines 564 to 569).\<close>
definition updateDevices :: "PlayerServer \<Rightarrow> PlayerServer" where
  "updateDevices s = s\<lparr>sensors := fold set_insert (new_sensors s) (sensors s), new_sensors := []\<rparr>"

subsection \<open>\<^verbatim>\<open>PlayerServer::bandwidth_usage\<close>\<close>

text \<open>\<^verbatim>\<open>#define TEAM_QUOTA (1000 * 1024 * 1024)\<close>\<close>
definition TEAM_QUOTA :: int where
  "TEAM_QUOTA = 1000 * 1024 * 1024"

text \<open>\<^verbatim>\<open>sum += v\<close> on \<^verbatim>\<open>int\<close>: overflow is undefined.\<close>
definition plus_int :: "int \<Rightarrow> int \<Rightarrow> error + int" where
  "plus_int a b = (if - (2 ^ 31) \<le> a + b \<and> a + b < 2 ^ 31 then Inr (a + b) else Inl Signed_Overflow)"

text \<open>Adding the numbers of a window, or of a file, to \<^verbatim>\<open>sum\<close>.\<close>
fun sum_loop :: "int list \<Rightarrow> int \<Rightarrow> error + int" where
  "sum_loop [] acc = Inr acc"
| "sum_loop (v # vs) acc =
     (case plus_int acc v of Inl e \<Rightarrow> Inl e | Inr acc' \<Rightarrow> sum_loop vs acc')"

text \<open>\<^verbatim>\<open>snprintf(filename, sizeof(filename), "quota-%s-%d.txt", ...)\<close> with \<^verbatim>\<open>char filename[32]\<close>.\<close>
definition quota_filename :: "int \<Rightarrow> int \<Rightarrow> string" where
  "quota_filename tm i =
     take 31 (''quota-'' @ (if tm = 0 then ''red'' else ''blue'') @ ''-'' @ to_string i @ ''.txt'')"

text \<open>The loop \<^verbatim>\<open>while (!feof(fd)) { if (fscanf(fd, ...) == 0) break; sum += v; }\<close> on a
  file of numbers, one per line; a file that cannot be opened is passed over. On an empty
  file \<^verbatim>\<open>fscanf\<close> returns \<^verbatim>\<open>EOF\<close>, which is not 0, and \<^verbatim>\<open>v\<close> is added before it was set.\<close>
definition read_quota_file :: "input \<Rightarrow> string \<Rightarrow> int \<Rightarrow> error + int" where
  "read_quota_file i filename acc =
     (case quota_files i filename of
        None \<Rightarrow> Inr acc
      | Some [] \<Rightarrow> Inl Indeterminate_Value
      | Some vs \<Rightarrow> sum_loop vs acc)"

text \<open>The loop \<^verbatim>\<open>for (int i = 1; i < 5; i++)\<close> over the team mates' files.\<close>
fun read_team_files :: "input \<Rightarrow> PlayerServer \<Rightarrow> int list \<Rightarrow> int \<Rightarrow> error + int" where
  "read_team_files i s [] acc = Inr acc"
| "read_team_files i s (k # ks) acc =
     (if k = player_id s then read_team_files i s ks acc
      else (case read_quota_file i (quota_filename (team s) k) acc of
              Inl e \<Rightarrow> Inl e
            | Inr acc' \<Rightarrow> read_team_files i s ks acc'))"

text \<open>What \<^verbatim>\<open>bandwidth_usage\<close> returns, and the file it writes: its name and its lines.\<close>
record bandwidth_result =
  usage :: int
  quota_file :: string
  quota_lines :: "int list"

text \<open>\<^verbatim>\<open>PlayerServer::bandwidth_usage\<close> (lines 593 to 628). The divisions are those of the
  source: \<^verbatim>\<open>1000 / basic_time_step\<close> on \<^verbatim>\<open>int\<close>, and
  \<^verbatim>\<open>(controller_time / basic_time_step) % window_size\<close> on \<^verbatim>\<open>unsigned int\<close>. The static
  array is allocated by the first call. The packet size is converted from \<^verbatim>\<open>size_t\<close> to
  \<^verbatim>\<open>int\<close> when it is stored.\<close>
definition bandwidth_usage ::
  "input \<Rightarrow> PlayerServer \<Rightarrow> nat \<Rightarrow> error + bandwidth_result \<times> PlayerServer" where
  "bandwidth_usage i s new_packet_size =
     (if basic_time_step s = 0 then Inl Division_By_Zero
      else
        (let window_size = 1000 sdiv basic_time_step s
         in if to_unsigned window_size = 0 then Inl Division_By_Zero
            else
              (let index = to_int ((uint (controller_time s) div to_unsigned (basic_time_step s))
                                     mod to_unsigned window_size)
               in if data_transferred s = None \<and> window_size < 0 then Inl Bad_Array_New_Length
                  else
                    (let window = (case data_transferred s of
                                     None \<Rightarrow> replicate (nat window_size) 0
                                   | Some a \<Rightarrow> a)
                     in if index < 0 \<or> int (length window) \<le> index
                           \<or> int (length window) < window_size
                        then Inl Out_Of_Bounds
                        else
                          (let window' = window[nat index := to_int (int new_packet_size)];
                               s' = s\<lparr>data_transferred := Some window'\<rparr>;
                               lines = take (nat window_size) window'
                           in case sum_loop lines 0 of
                                Inl e \<Rightarrow> Inl e
                              | Inr own \<Rightarrow>
                                  (case read_team_files i s' [1, 2, 3, 4] own of
                                     Inl e \<Rightarrow> Inl e
                                   | Inr acc \<Rightarrow>
                                       Inr (\<lparr>usage = acc,
                                             quota_file = quota_filename (team s) (player_id s),
                                             quota_lines = lines\<rparr>, s')))))))"

subsection \<open>\<^verbatim>\<open>send_all\<close> and \<open>PlayerServer::sendSensorMessage\<close>\<close>

text \<open>The \<open>k\<close>-th call \<^verbatim>\<open>send(socket, buffer, length, 0)\<close> of a step: it fails on the closed
  descriptor \<open>-1\<close>, and otherwise takes as many bytes as it can, at most \<open>length\<close>.\<close>
definition send_call :: "input \<Rightarrow> int \<Rightarrow> nat \<Rightarrow> nat \<Rightarrow> int" where
  "send_call i socket k len =
     (if socket = -1 then -1
      else if send_room i k < 1 then send_room i k
      else min (send_room i k) (int len))"

text \<open>The loop of \<^verbatim>\<open>send_all\<close> (lines 93 to 102): whether it completed, the bytes written, and
  the number of calls made.\<close>
function send_all_loop :: "input \<Rightarrow> int \<Rightarrow> nat \<Rightarrow> byte list \<Rightarrow> byte list \<Rightarrow> bool \<times> byte list \<times> nat" where
  "send_all_loop i socket k buffer sent =
     (if 0 < length buffer
      then (let n = send_call i socket k (length buffer)
            in if n < 1 then (False, sent, Suc k)
               else send_all_loop i socket (Suc k) (drop (nat n) buffer) (sent @ take (nat n) buffer))
      else (True, sent, k))"
  by pat_completeness auto
termination
  by (relation "measure (\<lambda>(i, socket, k, buffer, sent). length buffer)") auto

declare send_all_loop.simps [simp del]

definition send_all :: "input \<Rightarrow> int \<Rightarrow> byte list \<Rightarrow> bool \<times> byte list \<times> nat" where
  "send_all i socket buffer = send_all_loop i socket 0 buffer []"

text \<open>The four bytes that \<^verbatim>\<open>*output_size = htonl(size)\<close> stores.\<close>
definition htonl :: "nat \<Rightarrow> byte list" where
  "htonl n = [word_of_nat (n div 2 ^ 24), word_of_nat (n div 2 ^ 16), word_of_nat (n div 2 ^ 8), word_of_nat n]"

text \<open>The message built when the quota is exceeded: cleared, then one error entry whose text is
  \<^verbatim>\<open>std::to_string(TEAM_QUOTA) + " MB/s quota exceeded."\<close>\<close>
definition quota_exceeded :: SensorMeasurements where
  "quota_exceeded = Clear\<lparr>messages := [(ERROR_MESSAGE, to_string TEAM_QUOTA @ '' MB/s quota exceeded.'')]\<rparr>"

text \<open>\<^verbatim>\<open>ByteSizeLong()\<close> is the number of bytes that \<^verbatim>\<open>SerializeToArray\<close> writes.\<close>
definition ByteSizeLong :: "world \<Rightarrow> SensorMeasurements \<Rightarrow> nat" where
  "ByteSizeLong w sm = length (SerializeToArray w sm)"

text \<open>What \<^verbatim>\<open>sendSensorMessage\<close> did: the size it passed to \<^verbatim>\<open>bandwidth_usage\<close> and what that
  returned, the message serialized, the frame passed to \<^verbatim>\<open>send_all\<close>, the bytes written,
  the number of calls of \<^verbatim>\<open>send\<close>, and what \<^verbatim>\<open>send_all\<close> returned.\<close>
record send_report =
  checked_size :: nat
  bandwidth :: bandwidth_result
  payload :: SensorMeasurements
  frame :: "byte list"
  written :: "byte list"
  send_calls :: nat
  completed :: bool

text \<open>\<^verbatim>\<open>PlayerServer::sendSensorMessage\<close> (lines 571 to 589). \<^verbatim>\<open>size\<close> is a \<^verbatim>\<open>uint32_t\<close>. The
  value returned by \<^verbatim>\<open>send_all\<close> is not used by the source; it is only reported here.\<close>
definition sendSensorMessage :: "world \<Rightarrow> input \<Rightarrow> PlayerServer \<Rightarrow> error + send_report \<times> PlayerServer" where
  "sendSensorMessage w i s =
     (let size = ByteSizeLong w (sensor_measurements s) mod 2 ^ 32
      in case bandwidth_usage i s size of
           Inl e \<Rightarrow> Inl e
         | Inr (b, s1) \<Rightarrow>
             (let s2 = (if usage b > TEAM_QUOTA
                        then s1\<lparr>sensor_measurements := quota_exceeded\<rparr>
                        else s1);
                  size' = (if usage b > TEAM_QUOTA
                           then ByteSizeLong w (sensor_measurements s2) mod 2 ^ 32
                           else size);
                  out = htonl size' @ take size' (SerializeToArray w (sensor_measurements s2))
              in case send_all i (client_fd s2) out of
                   (ok, sent, calls) \<Rightarrow>
                     Inr (\<lparr>checked_size = size, bandwidth = b, payload = sensor_measurements s2,
                           frame = out, written = sent, send_calls = calls, completed = ok\<rparr>,
                          s2\<lparr>sensor_measurements := Clear\<rparr>)))"


subsection \<open>\<^verbatim>\<open>accept_client\<close> and \<^verbatim>\<open>PlayerServer::step\<close>\<close>

text \<open>A string literal with its terminating zero.\<close>
definition c_string :: "string \<Rightarrow> byte list" where
  "c_string str = map (\<lambda>c. word_of_nat (of_char c)) str @ [0]"

text \<open>\<^verbatim>\<open>accept_client\<close> (lines 104 to 129): the descriptor returned and the token sent.\<close>
definition accept_client :: "input \<Rightarrow> PlayerServer \<Rightarrow> int \<times> byte list" where
  "accept_client i s =
     (let cfd = accept_fd i
      in if cfd \<noteq> -1
         then (let allowed = (accept_h_name i \<in> set (allowed_hosts s))
               in if allowed
                  then (cfd, fst (snd (send_all i cfd (c_string ''Welcome''))))
                  else (-1, fst (snd (send_all i cfd (c_string ''Refused'')))))
         else (cfd, []))"

text \<open>What a step put on the wire: the token of \<^verbatim>\<open>accept_client\<close>, or the snapshot as
  \<^verbatim>\<open>prepareSensorMessage\<close> built it and the report of \<^verbatim>\<open>sendSensorMessage\<close>.\<close>
record step_report =
  token :: "byte list"
  snapshot :: "SensorMeasurements option"
  sent :: "send_report option"

text \<open>\<^verbatim>\<open>PlayerServer::step\<close> (lines 230 to 272), without the timing printouts. \<open>socket\<close> is what
  the connection holds unread from earlier steps; the step returns what it leaves unread.\<close>
definition step :: "world \<Rightarrow> input \<Rightarrow> PlayerServer \<Rightarrow> recv_event list
    \<Rightarrow> error + step_report \<times> PlayerServer \<times> recv_event list" where
  "step w i s socket =
     (if client_fd s = -1
      then (case accept_client i s of
              (cfd, tok) \<Rightarrow>
                (let s1 = s\<lparr>client_fd := cfd\<rparr>;
                     s2 = (if client_fd s1 \<noteq> -1 then s1\<lparr>controller_time := 0\<rparr> else s1)
                 in Inr (\<lparr>token = tok, snapshot = None, sent = None\<rparr>, s2, [])))
      else
        (let s1 = s\<lparr>controller_time := controller_time s + word_of_int (basic_time_step s)\<rparr>
         in case (if select_retval i = -1 then Inr (s1, socket @ arrivals i)
                  else receiveMessages w s1 (socket @ arrivals i)) of
              Inl e \<Rightarrow> Inl e
            | Inr (s2, socket') \<Rightarrow>
                (case prepareSensorMessage w i s2 of
                   Inl e \<Rightarrow> Inl e
                 | Inr s3 \<Rightarrow>
                     (case sendSensorMessage w i (updateDevices s3) of
                        Inl e \<Rightarrow> Inl e
                      | Inr (r, s4) \<Rightarrow>
                          Inr (\<lparr>token = [], snapshot = Some (sensor_measurements s3), sent = Some r\<rparr>,
                               s4, socket')))))"

text \<open>The constructor.\<close>
definition PlayerServer_init :: "world \<Rightarrow> string list \<Rightarrow> int \<Rightarrow> int \<Rightarrow> int \<Rightarrow> int \<Rightarrow> PlayerServer" where
  "PlayerServer_init w hosts prt pid tm sfd =
     \<lparr>allowed_hosts = hosts, port = prt, player_id = pid, team = tm, server_fd = sfd,
      client_fd = -1, sensors = [], new_sensors = [], controller_time = 0, recv_buffer = [],
      recv_index = 0, recv_size = 0, content_size = 0, basic_time_step = getBasicTimeStep w,
      sensor_measurements = Clear, sampling_period = (\<lambda>d. 0), actuations = [],
      data_transferred = None, dispatched = []\<rparr>"

subsection \<open>A concrete robot, codec and run\<close>

text \<open>The wire format of Protocol Buffers for \<^verbatim>\<open>SensorMeasurements\<close>, as one possible value of the
  parameter \<open>SerializeToArray\<close>: base-128 varints, a tag byte per field, lengths before strings
  and sub-messages, scalar fields at their default left out. The field numbers are chosen
  here, the schema not being among the sources; the sizes only need them to be below 16.\<close>
fun varint :: "nat \<Rightarrow> byte list" where
  "varint n = (if n < 128 then [word_of_nat n] else word_of_nat (128 + n mod 128) # varint (n div 128))"

declare varint.simps [simp del]

definition pb_tag :: "nat \<Rightarrow> nat \<Rightarrow> byte list" where
  "pb_tag field wire_type = varint (field * 8 + wire_type)"

definition pb_bytes :: "nat \<Rightarrow> byte list \<Rightarrow> byte list" where
  "pb_bytes field bs = pb_tag field 2 @ varint (length bs) @ bs"

definition pb_string :: "nat \<Rightarrow> string \<Rightarrow> byte list" where
  "pb_string field str =
     (if str = [] then [] else pb_bytes field (map (\<lambda>c. word_of_nat (of_char c)) str))"

definition pb_uint :: "nat \<Rightarrow> nat \<Rightarrow> byte list" where
  "pb_uint field n = (if n = 0 then [] else pb_tag field 0 @ varint n)"

definition pb_int :: "nat \<Rightarrow> int \<Rightarrow> byte list" where
  "pb_int field v = pb_uint field (nat (v mod 2 ^ 64))"

definition pb_double :: "nat \<Rightarrow> double \<Rightarrow> byte list" where
  "pb_double field v =
     (if v = 0 then []
      else pb_tag field 1 @ map (\<lambda>k. word_of_nat (unat v div 256 ^ k)) [0..<8])"

definition pb_vector3 :: "nat \<Rightarrow> vector3 \<Rightarrow> byte list" where
  "pb_vector3 field v =
     (case v of (x, y, z) \<Rightarrow> pb_bytes field (pb_double 1 x @ pb_double 2 y @ pb_double 3 z))"

definition pb_message :: "message_type \<times> string \<Rightarrow> byte list" where
  "pb_message m =
     pb_bytes 3 (pb_uint 1 (case fst m of ERROR_MESSAGE \<Rightarrow> 0 | WARNING_MESSAGE \<Rightarrow> 1)
                 @ pb_string 2 (snd m))"

definition pb_camera :: "CameraMeasurement \<Rightarrow> byte list" where
  "pb_camera c =
     pb_bytes 6 (pb_string 1 (camera_name c) @ pb_int 2 (width c) @ pb_int 3 (height c)
                 @ pb_int 4 (quality c) @ (if image c = [] then [] else pb_bytes 5 (image c)))"

definition pb_serialize :: "SensorMeasurements \<Rightarrow> byte list" where
  "pb_serialize sm =
     pb_uint 1 (unat (time sm)) @ pb_uint 2 (unat (real_time sm))
     @ concat (map pb_message (messages sm))
     @ concat (map (\<lambda>m. pb_bytes 4 (pb_string 1 (fst m) @ pb_vector3 2 (snd m))) (accelerometers sm))
     @ concat (map (\<lambda>m. pb_bytes 5 (pb_string 1 (fst m) @ pb_uint 2 (if snd m then 1 else 0))) (bumpers sm))
     @ concat (map pb_camera (cameras sm))
     @ concat (map (\<lambda>m. pb_bytes 7 (pb_string 1 (fst m) @ pb_double 2 (snd m))) (forces sm))
     @ concat (map (\<lambda>m. pb_bytes 8 (pb_string 1 (fst m) @ pb_vector3 2 (snd m))) (force3ds sm))
     @ concat (map (\<lambda>m. pb_bytes 10 (pb_string 1 (fst m) @ pb_vector3 2 (snd m))) (gyros sm))
     @ concat (map (\<lambda>m. pb_bytes 11 (pb_string 1 (fst m) @ pb_double 2 (snd m))) (position_sensors sm))"

text \<open>A robot with a gyro, an accelerometer and a motor, on a basic time step of 32. Its decoder
  stands in for \<^verbatim>\<open>ParseFromArray\<close>: a payload is a sequence of pairs (device, period), device
  1 being the gyro, 2 the accelerometer, 3 the motor, and decodes to the time-step commands
  of those pairs.\<close>
definition no_requests :: ActuatorRequests where
  "no_requests = \<lparr>motor_positions = [], motor_velocities = [], motor_forces = [],
     motor_torques = [], motor_pids = [], camera_qualities = [], camera_exposures = [],
     sensor_time_steps = []\<rparr>"

definition demo_name :: "device \<Rightarrow> string" where
  "demo_name d = (if d = 1 then ''gyro'' else if d = 2 then ''accelerometer''
                  else if d = 3 then ''motor'' else [])"

fun demo_commands :: "byte list \<Rightarrow> (string \<times> int) list" where
  "demo_commands (d # p # rest) = (demo_name (unat d), uint p) # demo_commands rest"
| "demo_commands _ = []"

definition demo_world :: world where
  "demo_world =
     \<lparr>getDevice = (\<lambda>n. if n = ''gyro'' then Some 1 else if n = ''accelerometer'' then Some 2
                        else if n = ''motor'' then Some 3 else None),
      getNodeType = (\<lambda>d. if d = 1 then GYRO else if d = 2 then ACCELEROMETER
                          else if d = 3 then ROTATIONAL_MOTOR else OTHER_NODE),
      getName = demo_name,
      getType = (\<lambda>d. BUMPER),
      getWidth = (\<lambda>d. 0),
      getHeight = (\<lambda>d. 0),
      getBasicTimeStep = 32,
      ParseFromArray = (\<lambda>bs. no_requests\<lparr>sensor_time_steps := demo_commands bs\<rparr>),
      SerializeToArray = pb_serialize,
      EAGAIN = 11,
      EWOULDBLOCK = 11\<rparr>"

text \<open>A step in which nothing arrives, every \<^verbatim>\<open>send\<close> takes all it is given, and no team mate
  has published a window. \<^verbatim>\<open>accept\<close>, where the step calls it, returns descriptor 4 for
  the host localhost.\<close>
definition demo_input :: input where
  "demo_input =
     \<lparr>accept_fd = 4, accept_h_name = ''localhost'', select_retval = 0, arrivals = [],
      send_room = (\<lambda>k. 65536), tv_sec = 1600000000, tv_usec = 0,
      getValue = (\<lambda>d. 0), getValues = (\<lambda>d. (0, 0, 0)), getImage = (\<lambda>d. []),
      quota_files = (\<lambda>n. None)\<rparr>"

text \<open>The server as constructed for player 1 of team red, allowing localhost; and the same with a
  client connected.\<close>
definition demo_server :: PlayerServer where
  "demo_server = PlayerServer_init demo_world [''localhost''] 10001 1 0 3"

definition connected_server :: PlayerServer where
  "connected_server = demo_server\<lparr>client_fd := 4\<rparr>"

text \<open>The receive polls of successive steps, each finding one chunk of the stream arrived.\<close>
fun receive_chunks :: "world \<Rightarrow> byte list list \<Rightarrow> PlayerServer \<Rightarrow> error + PlayerServer" where
  "receive_chunks w [] s = Inr s"
| "receive_chunks w (c # cs) s =
     (case receiveMessages w s [Recv_Bytes c] of
        Inl e \<Rightarrow> Inl e
      | Inr (s', es) \<Rightarrow> receive_chunks w cs s')"

text \<open>The main loop: one call of \<^verbatim>\<open>step\<close> per input, stopping at the first error.\<close>
fun steps :: "world \<Rightarrow> input list \<Rightarrow> PlayerServer \<Rightarrow> recv_event list
    \<Rightarrow> error + step_report list \<times> PlayerServer \<times> recv_event list" where
  "steps w [] s socket = Inr ([], s, socket)"
| "steps w (i # is) s socket =
     (case step w i s socket of
        Inl e \<Rightarrow> Inl e
      | Inr (r, s', socket') \<Rightarrow>
          (case steps w is s' socket' of
             Inl e \<Rightarrow> Inl e
           | Inr (rs, s'', socket'') \<Rightarrow> Inr (r # rs, s'', socket'')))"

section \<open>Vocabulary for the claims\<close>

subsection \<open>Snapshots and commands\<close>

text \<open>The names that a snapshot carries in its measurements: by these a client tells which
  devices contributed.\<close>
definition measurement_names :: "SensorMeasurements \<Rightarrow> string list" where
  "measurement_names sm =
     map fst (accelerometers sm) @ map fst (bumpers sm) @ map camera_name (cameras sm)
     @ map fst (forces sm) @ map fst (force3ds sm) @ map fst (gyros sm)
     @ map fst (position_sensors sm)"

text \<open>The measurement names of the snapshot a step built (none when the step only accepted).\<close>
definition snapshot_names :: "step_report \<Rightarrow> string list" where
  "snapshot_names rep = (case snapshot rep of None \<Rightarrow> [] | Some snap \<Rightarrow> measurement_names snap)"

text \<open>The device kinds that \<^verbatim>\<open>prepareSensorMessage\<close> samples: those its dynamic casts recognise.\<close>
definition samplable :: "world \<Rightarrow> device \<Rightarrow> bool" where
  "samplable w d =
     (case getNodeType w d of
        ACCELEROMETER \<Rightarrow> True | CAMERA \<Rightarrow> True | GYRO \<Rightarrow> True
      | POSITION_SENSOR \<Rightarrow> True | TOUCH_SENSOR \<Rightarrow> True | _ \<Rightarrow> False)"

text \<open>The test \<^verbatim>\<open>controller_time % getSamplingPeriod()\<close> gives 0.\<close>
definition due :: "PlayerServer \<Rightarrow> device \<Rightarrow> bool" where
  "due s d = (uint (controller_time s) mod to_unsigned (getSamplingPeriod s d) = 0)"

text \<open>Every device of a list that would be sampled has a period that can be divided by.\<close>
definition periods_set :: "world \<Rightarrow> PlayerServer \<Rightarrow> device list \<Rightarrow> bool" where
  "periods_set w s ds = (\<forall>d \<in> set ds. samplable w d \<longrightarrow> to_unsigned (getSamplingPeriod s d) \<noteq> 0)"

text \<open>The time-step commands of the payloads dispatched, in the order of dispatch.\<close>
definition time_step_commands :: "world \<Rightarrow> byte list list \<Rightarrow> (string \<times> int) list" where
  "time_step_commands w ps = concat (map (\<lambda>p. sensor_time_steps (ParseFromArray w p)) ps)"

text \<open>The payloads dispatched between two states of one run.\<close>
definition step_payloads :: "PlayerServer \<Rightarrow> PlayerServer \<Rightarrow> byte list list" where
  "step_payloads s s' = drop (length (dispatched s)) (dispatched s')"

text \<open>A time-step command that the dispatcher accepts for device \<open>d\<close>: the device exists and is of a
  supported kind, the period is not 0, not below the basic time step and a multiple of it.\<close>
definition enables :: "world \<Rightarrow> PlayerServer \<Rightarrow> device \<Rightarrow> string \<times> int \<Rightarrow> bool" where
  "enables w s d c =
     (getDevice w (fst c) = Some d \<and> samplable w d \<and> snd c \<noteq> 0
      \<and> \<not> snd c < basic_time_step s \<and> snd c smod basic_time_step s = 0)"

text \<open>A time-step command that disables device \<open>d\<close>: period 0.\<close>
definition disables :: "world \<Rightarrow> device \<Rightarrow> string \<times> int \<Rightarrow> bool" where
  "disables w d c = (getDevice w (fst c) = Some d \<and> snd c = 0)"

subsection \<open>Bookkeeping for the proofs\<close>

text \<open>What the dispatcher leaves alone while it applies the actuator commands.\<close>
definition same_subscriptions :: "PlayerServer \<Rightarrow> PlayerServer \<Rightarrow> bool" where
  "same_subscriptions s s' =
     (sensors s' = sensors s \<and> new_sensors s' = new_sensors s
      \<and> sampling_period s' = sampling_period s
      \<and> basic_time_step s' = basic_time_step s \<and> controller_time s' = controller_time s
      \<and> dispatched s' = dispatched s \<and> client_fd s' = client_fd s
      \<and> content_size s' = content_size s \<and> recv_index s' = recv_index s
      \<and> measurement_names (sensor_measurements s') = measurement_names (sensor_measurements s))"

text \<open>How the two sets of a state \<open>s\<close> relate to those of an earlier state \<open>s0\<close> when the time-step
  commands \<open>cs\<close> were applied in between.\<close>
definition tracks :: "world \<Rightarrow> PlayerServer \<Rightarrow> (string \<times> int) list \<Rightarrow> PlayerServer \<Rightarrow> bool" where
  "tracks w s0 cs s =
     (set (sensors s) \<subseteq> set (sensors s0) \<and> set (new_sensors s0) \<subseteq> set (new_sensors s)
      \<and> basic_time_step s = basic_time_step s0 \<and> controller_time s = controller_time s0
      \<and> measurement_names (sensor_measurements s) = measurement_names (sensor_measurements s0)
      \<and> (\<forall>d. (\<exists>c \<in> set cs. getDevice w (fst c) = Some d \<and> snd c = 0) \<longrightarrow> d \<notin> set (sensors s))
      \<and> (\<forall>d. d \<in> set (sensors s0) \<and> (\<forall>c \<in> set cs. getDevice w (fst c) = Some d \<longrightarrow> snd c \<noteq> 0)
             \<longrightarrow> d \<in> set (sensors s))
      \<and> (\<forall>d. d \<notin> set (sensors s0) \<and> (\<exists>c \<in> set cs. getDevice w (fst c) = Some d \<and> snd c \<noteq> 0)
             \<longrightarrow> d \<in> set (new_sensors s)))"

text \<open>What \<^verbatim>\<open>receiveMessages\<close> dispatched since \<open>s0\<close>, and what that did to the two sets.\<close>
definition dispatched_since :: "world \<Rightarrow> PlayerServer \<Rightarrow> PlayerServer \<Rightarrow> bool" where
  "dispatched_since w s0 s =
     (\<exists>ps. dispatched s = dispatched s0 @ ps \<and> tracks w s0 (time_step_commands w ps) s)"

subsection \<open>Concrete states and inputs\<close>

text \<open>A team mate has published a window that alone fills the quota.\<close>
definition busy_team_input :: input where
  "busy_team_input =
     demo_input\<lparr>quota_files := (\<lambda>n. if n = ''quota-red-2.txt'' then Some [1048576000] else None)\<rparr>"

text \<open>A connected server whose snapshot for time 32 is built and holds no measurement.\<close>
definition ready_server :: PlayerServer where
  "ready_server =
     connected_server\<lparr>controller_time := 32,
        sensor_measurements := Clear\<lparr>time := 32, real_time := 1600000000000\<rparr>\<rparr>"

text \<open>Sending that snapshot while the team is over quota.\<close>
definition quota_run :: "error + send_report \<times> PlayerServer" where
  "quota_run = sendSensorMessage demo_world busy_team_input ready_server"

text \<open>A socket that takes five bytes per call.\<close>
definition slow_input :: input where
  "slow_input = demo_input\<lparr>send_room := (\<lambda>k. 5)\<rparr>"

text \<open>Sending the snapshot through it.\<close>
definition slow_run :: "error + send_report \<times> PlayerServer" where
  "slow_run = sendSensorMessage demo_world slow_input ready_server"


text \<open>A connected server at time \<open>t\<close> with the gyro active at period 64 (the basic time step is 32).\<close>
definition sampling_server :: "32 word \<Rightarrow> PlayerServer" where
  "sampling_server t =
     connected_server\<lparr>sensors := [1], sampling_period := (\<lambda>d. if d = 1 then 64 else 0),
        controller_time := t\<rparr>"

text \<open>The names in the snapshot built at time \<open>t\<close>.\<close>
definition sampled_names :: "32 word \<Rightarrow> error + string list" where
  "sampled_names t =
     map_sum id (\<lambda>s. measurement_names (sensor_measurements s))
       (prepareSensorMessage demo_world demo_input (sampling_server t))"

text \<open>One message asking period 64 for the gyro; one message asking period 0.\<close>
definition enable_input :: input where
  "enable_input = demo_input\<lparr>arrivals := [Recv_Bytes [0, 0, 0, 2, 1, 64]]\<rparr>"

definition disable_input :: input where
  "disable_input = demo_input\<lparr>arrivals := [Recv_Bytes [0, 0, 0, 2, 1, 0]]\<rparr>"

text \<open>The step that receives the enable command, the state it leaves, the step after it, and a
  step that receives the disable command while the gyro is active and due.\<close>
definition enable_step :: "error + step_report \<times> PlayerServer \<times> recv_event list" where
  "enable_step = step demo_world enable_input connected_server []"

definition after_enable :: PlayerServer where
  "after_enable = fst (snd (projr enable_step))"

definition report_step :: "error + step_report \<times> PlayerServer \<times> recv_event list" where
  "report_step = step demo_world demo_input after_enable []"

definition disable_step :: "error + step_report \<times> PlayerServer \<times> recv_event list" where
  "disable_step = step demo_world disable_input (sampling_server 96) []"

text \<open>What the witnesses read off a step.\<close>
definition step_view ::
  "error + step_report \<times> PlayerServer \<times> recv_event list
     \<Rightarrow> error + string list \<times> device list \<times> byte list list \<times> int \<times> 32 word \<times> int" where
  "step_view r =
     map_sum id (\<lambda>x. (snapshot_names (fst x), sensors (fst (snd x)), dispatched (fst (snd x)),
                       getSamplingPeriod (fst (snd x)) 1, controller_time (fst (snd x)),
                       client_fd (fst (snd x)))) r"

section \<open>Properties of the model\<close>

subsection \<open>Arithmetic and containers\<close>





lemma set_set_insert [simp]: "set (set_insert d ds) = insert d (set ds)"
  by (auto simp: set_insert_def set_insort_key)

lemma set_set_erase [simp]: "set (set_erase d ds) = set ds - {d}"
  by (auto simp: set_erase_def)

lemma set_fold_set_insert [simp]: "set (fold set_insert xs ys) = set xs \<union> set ys"
  by (induction xs arbitrary: ys) auto

lemma Inr_projr: "\<not> isl x \<Longrightarrow> x = Inr (fst (projr x), fst (snd (projr x)), snd (snd (projr x)))"
  by (cases x) auto

lemma quota_exceeded_text:
  "messages quota_exceeded = [(ERROR_MESSAGE, ''1048576000 MB/s quota exceeded.'')]"
  by (simp add: quota_exceeded_def to_string_def TEAM_QUOTA_def digits.simps digit_char_def)

subsection \<open>Receiving\<close>



lemma receiveData_loop_state:
  "receiveData_loop w len received buffer s es = (n, b, s', es') \<Longrightarrow>
     s' = s \<or> s' = s\<lparr>client_fd := -1\<rparr>"
proof (induction w len received buffer s es rule: receiveData_loop.induct)
  case (1 w len received buffer s es)
  note run = "1.prems"[unfolded receiveData_loop.simps[of w len received buffer s es]]
  show ?case
  proof (cases "received < len")
    case False
    with run show ?thesis by simp
  next
    case True
    obtain r es1 where r: "recv w es (len - received) = (r, es1)"
      by (cases "recv w es (len - received)")
    show ?thesis
    proof (cases r)
      case (Received bs)
      from "1.IH"[OF True r[unfolded Received, symmetric] refl] run True r Received
      show ?thesis by simp
    next
      case (Failed e)
      with run True r show ?thesis by (auto split: if_splits)
    next
      case Closed
      with run True r show ?thesis by auto
    qed
  qed
qed

lemma receiveData_state:
  "receiveData w s buffer len es = (n, b, s', es') \<Longrightarrow> s' = s \<or> s' = s\<lparr>client_fd := -1\<rparr>"
  by (simp add: receiveData_def receiveData_loop_state)

lemma receiveMessages_closed:
  "client_fd s = -1 \<Longrightarrow> receiveMessages w s es = Inr (s, es)"
  by (subst receiveMessages.simps) simp

lemma receiveMessages_header:
  assumes "client_fd s \<noteq> -1" and "content_size s = 0"
    and "receiveData w s [0, 0, 0, 0] 4 es = (n, mem, s1, es1)"
    and "s3 = s1\<lparr>content_size := ntohl mem, recv_buffer := replicate (nat (ntohl mem)) 0\<rparr>"
  shows "receiveMessages w s es =
           (if ntohl mem < 0 then Inl Bad_Array_New_Length
            else if n = 0 then Inr (s3, es1) else receiveMessages w s3 es1)"
  using assms by (subst receiveMessages.simps) (simp add: Let_def)

lemma receiveMessages_payload:
  assumes "client_fd s \<noteq> -1" and "content_size s \<noteq> 0"
    and "\<not> content_size s < recv_index s"
    and "receiveData w s (drop (nat (recv_index s)) (recv_buffer s))
               (nat (content_size s - recv_index s)) es = (n, mem, s1, es1)"
    and "s2 = s1\<lparr>recv_buffer := take (nat (recv_index s)) (recv_buffer s) @ mem,
                             recv_index := recv_index s + int n\<rparr>"
    and "res = (if recv_index s2 = content_size s2 then processBuffer w s2 else Inr s2)"
  shows "receiveMessages w s es =
           (case res of
              Inl e \<Rightarrow> Inl e
            | Inr s3 \<Rightarrow> if n = 0 then Inr (s3, es1) else receiveMessages w s3 es1)"
  using assms by (subst receiveMessages.simps) (simp add: Let_def)



subsection \<open>Dispatching\<close>

lemma measurement_names_warn [simp]:
  "measurement_names (warn sm text) = measurement_names sm"
  by (simp add: warn_def measurement_names_def)

lemma measurement_names_stamp [simp]:
  "measurement_names (sm\<lparr>time := t, real_time := rt\<rparr>) = measurement_names sm"
  by (simp add: measurement_names_def)

lemma same_subscriptions_refl [simp]: "same_subscriptions s s"
  by (simp add: same_subscriptions_def)

lemma same_subscriptions_trans:
  "same_subscriptions s s' \<Longrightarrow> same_subscriptions s' s'' \<Longrightarrow> same_subscriptions s s''"
  by (simp add: same_subscriptions_def)

lemma same_subscriptions_warning [simp]: "same_subscriptions s (warning text s)"
  by (simp add: same_subscriptions_def warning_def)

lemma same_subscriptions_actuate [simp]: "same_subscriptions s (actuate a s)"
  by (simp add: same_subscriptions_def actuate_def)

lemma same_subscriptions_fold:
  assumes "\<And>c s. same_subscriptions s (f c s)"
  shows "same_subscriptions s (fold f cs s)"
proof (induction cs arbitrary: s)
  case Nil
  show ?case by simp
next
  case (Cons c cs)
  from same_subscriptions_trans[OF assms[of s c] Cons.IH[of "f c s"]] show ?case by simp
qed

lemma same_subscriptions_commands:
  "same_subscriptions s (motor_position w c1 s)"
  "same_subscriptions s (motor_velocity w c1 s)"
  "same_subscriptions s (motor_force w c1 s)"
  "same_subscriptions s (motor_torque w c1 s)"
  "same_subscriptions s (motor_pid w c2 s)"
  "same_subscriptions s (camera_quality w c3 s)"
  "same_subscriptions s (camera_exposure w c1 s)"
  by (simp_all add: motor_position_def motor_velocity_def motor_force_def motor_torque_def
        motor_pid_def camera_quality_def camera_exposure_def split: option.splits prod.splits)

lemma sensor_time_step_effect:
  assumes "sensor_time_step w c s = Inr s'"
  shows "basic_time_step s' = basic_time_step s \<and> controller_time s' = controller_time s
       \<and> dispatched s' = dispatched s \<and> client_fd s' = client_fd s
       \<and> content_size s' = content_size s \<and> recv_index s' = recv_index s
       \<and> measurement_names (sensor_measurements s') = measurement_names (sensor_measurements s)
       \<and> sensors s' = (case getDevice w (fst c) of
                         Some d \<Rightarrow> if snd c = 0 then set_erase d (sensors s) else sensors s
                       | None \<Rightarrow> sensors s)
       \<and> new_sensors s' = (case getDevice w (fst c) of
                         Some d \<Rightarrow> if snd c \<noteq> 0 \<and> d \<notin> set (sensors s)
                                   then set_insert d (new_sensors s) else new_sensors s
                       | None \<Rightarrow> new_sensors s)"
proof (cases "getDevice w (fst c)")
  case None
  with assms show ?thesis
    by (auto simp: sensor_time_step_def warning_def)
next
  case (Some d)
  with assms show ?thesis
    by (auto simp: sensor_time_step_def Let_def set_count_def warning_def enable_def
          split: if_splits node_type.splits)
qed

lemma tracks_refl: "tracks w s [] s"
  by (simp add: tracks_def)

lemma tracks_same:
  "tracks w s0 cs s \<Longrightarrow> same_subscriptions s s' \<Longrightarrow> tracks w s0 cs s'"
  by (simp add: tracks_def same_subscriptions_def)

lemma tracks_command:
  assumes t: "tracks w s0 cs s" and c: "sensor_time_step w c s = Inr s'"
  shows "tracks w s0 (cs @ [c]) s'"
proof -
  note e = sensor_time_step_effect[OF c]
  show ?thesis
  proof (cases "getDevice w (fst c)")
    case None
    with e t show ?thesis
      by (auto simp: tracks_def)
  next
    case (Some d)
    show ?thesis
    proof (cases "snd c = 0")
      case True
      with e Some have "sensors s' = set_erase d (sensors s)" "new_sensors s' = new_sensors s"
        by simp_all
      with e t Some True show ?thesis
        unfolding tracks_def by (simp add: ball_Un bex_Un) blast
    next
      case False
      with e Some have "sensors s' = sensors s"
        "set (new_sensors s') = (if d \<in> set (sensors s) then set (new_sensors s)
                                 else insert d (set (new_sensors s)))"
        by simp_all
      with e t Some False show ?thesis
        unfolding tracks_def by (simp add: ball_Un bex_Un) blast
    qed
  qed
qed

lemma tracks_loop:
  "tracks w s0 cs s \<Longrightarrow> sensor_time_steps_loop w cs' s = Inr s' \<Longrightarrow> tracks w s0 (cs @ cs') s'"
proof (induction cs' arbitrary: cs s)
  case Nil
  then show ?case by simp
next
  case (Cons c cs')
  from Cons.prems(2) obtain s1 where c: "sensor_time_step w c s = Inr s1"
    and r: "sensor_time_steps_loop w cs' s1 = Inr s'"
    by (auto split: sum.splits)
  from Cons.IH[OF tracks_command[OF Cons.prems(1) c] r] show ?case by simp
qed

lemma sensor_time_steps_loop_frame:
  "sensor_time_steps_loop w cs s = Inr s' \<Longrightarrow>
     dispatched s' = dispatched s \<and> client_fd s' = client_fd s
     \<and> content_size s' = content_size s \<and> recv_index s' = recv_index s"
proof (induction cs arbitrary: s)
  case Nil
  then show ?case by simp
next
  case (Cons c cs)
  from Cons.prems obtain s1 where c: "sensor_time_step w c s = Inr s1"
    and r: "sensor_time_steps_loop w cs s1 = Inr s'"
    by (auto split: sum.splits)
  from Cons.IH[OF r] sensor_time_step_effect[OF c] show ?case by simp
qed

lemma apply_requests_tracks:
  assumes t: "tracks w s0 cs s" and a: "apply_requests w rq s = Inr s'"
  shows "tracks w s0 (cs @ sensor_time_steps rq) s' \<and> dispatched s' = dispatched s
         \<and> client_fd s' = client_fd s \<and> content_size s' = content_size s
         \<and> recv_index s' = recv_index s"
proof -
  define s1 where "s1 = fold (camera_exposure w) (camera_exposures rq)
       (fold (camera_quality w) (camera_qualities rq)
       (fold (motor_pid w) (motor_pids rq)
       (fold (motor_torque w) (motor_torques rq)
       (fold (motor_force w) (motor_forces rq)
       (fold (motor_velocity w) (motor_velocities rq)
       (fold (motor_position w) (motor_positions rq) s))))))"
  have "same_subscriptions s s1"
    unfolding s1_def
    by (intro same_subscriptions_trans[OF _ same_subscriptions_fold] same_subscriptions_fold
          same_subscriptions_commands)
  moreover from a have l: "sensor_time_steps_loop w (sensor_time_steps rq) s1 = Inr s'"
    by (simp add: apply_requests_def s1_def)
  ultimately show ?thesis
    using tracks_loop[OF tracks_same[OF t] l] sensor_time_steps_loop_frame[OF l]
    by (simp add: same_subscriptions_def)
qed

lemma tracks_transport:
  "tracks w s0 cs s \<Longrightarrow>
     tracks w s0 cs (s\<lparr>client_fd := fd, content_size := n, recv_buffer := buf, recv_index := ri\<rparr>)"
  by (simp add: tracks_def)

lemma processBuffer_tracks:
  assumes t: "tracks w s0 cs s" and p: "processBuffer w s = Inr s'"
  shows "tracks w s0 (cs @ sensor_time_steps (ParseFromArray w (take (nat (recv_index s)) (recv_buffer s)))) s'
       \<and> dispatched s' = dispatched s @ [take (nat (recv_index s)) (recv_buffer s)]
       \<and> client_fd s' = client_fd s"
proof -
  define s1 where "s1 = s\<lparr>recv_index := 0, content_size := 0, recv_buffer := [],
              dispatched := dispatched s @ [take (nat (recv_index s)) (recv_buffer s)]\<rparr>"
  from t have t1: "tracks w s0 cs s1"
    by (simp add: tracks_def s1_def)
  from p have "apply_requests w (ParseFromArray w (take (nat (recv_index s)) (recv_buffer s))) s1 = Inr s'"
    by (simp add: processBuffer_def Let_def s1_def)
  from apply_requests_tracks[OF t1 this] show ?thesis
    by (simp add: s1_def)
qed

lemma dispatched_since_refl: "dispatched_since w s s"
  by (auto simp: dispatched_since_def time_step_commands_def tracks_refl)

lemma dispatched_since_transport:
  "dispatched_since w s0 s \<Longrightarrow>
     dispatched_since w s0 (s\<lparr>client_fd := fd, content_size := n, recv_buffer := buf, recv_index := ri\<rparr>)"
  by (auto simp: dispatched_since_def tracks_transport)

lemma dispatched_since_processBuffer:
  assumes "dispatched_since w s0 s" and "processBuffer w s = Inr s'"
  shows "dispatched_since w s0 s'"
proof -
  from assms(1) obtain ps where d: "dispatched s = dispatched s0 @ ps"
    and t: "tracks w s0 (time_step_commands w ps) s"
    by (auto simp: dispatched_since_def)
  from processBuffer_tracks[OF t assms(2)] d show ?thesis
    unfolding dispatched_since_def
    by (intro exI[of _ "ps @ [take (nat (recv_index s)) (recv_buffer s)]"])
       (simp add: time_step_commands_def)
qed

lemma receiveMessages_dispatched_since:
  "receiveMessages w s es = Inr (s', es') \<Longrightarrow> dispatched_since w s0 s \<Longrightarrow> dispatched_since w s0 s'"
proof (induction w s es rule: receiveMessages.induct)
  case (1 w s es)
  note run = "1.prems"(1)
  show ?case
  proof (cases "client_fd s = -1")
    case True
    with run "1.prems"(2) show ?thesis by (simp add: receiveMessages_closed)
  next
    case conn: False
    show ?thesis
    proof (cases "content_size s = 0")
      case True
      obtain n mem s1 es1 where rd: "receiveData w s [0, 0, 0, 0] 4 es = (n, mem, s1, es1)"
        by (cases "receiveData w s [0, 0, 0, 0] 4 es") auto
      define s3 where "s3 = s1\<lparr>content_size := ntohl mem,
                                 recv_buffer := replicate (nat (ntohl mem)) 0\<rparr>"
      note run2 = run[unfolded receiveMessages_header[OF conn True rd s3_def]]
      from receiveData_state[OF rd]
      have "s3 = s\<lparr>client_fd := client_fd s1, content_size := ntohl mem,
                    recv_buffer := replicate (nat (ntohl mem)) 0, recv_index := recv_index s\<rparr>"
        by (auto simp: s3_def)
      with dispatched_since_transport[OF "1.prems"(2), where fd = "client_fd s1" and n = "ntohl mem"
          and buf = "replicate (nat (ntohl mem)) 0" and ri = "recv_index s"]
      have r3: "dispatched_since w s0 s3"
        by simp
      from run2 have nonneg: "\<not> ntohl mem < 0"
        by (auto split: if_splits)
      show ?thesis
      proof (cases "n = 0")
        case True
        with run2 nonneg have "s' = s3"
          by simp
        with r3 show ?thesis by simp
      next
        case False
        with run2 nonneg
        have "receiveMessages w s3 es1 = Inr (s', es')"
          by simp
        from "1.IH"(1)[OF conn True rd[symmetric] refl refl refl _ _ False this r3] nonneg
        show ?thesis
          by (simp add: s3_def)
      qed
    next
      case False
      have bound: "\<not> content_size s < recv_index s"
      proof
        assume "content_size s < recv_index s"
        with run conn False show False
          by (subst (asm) receiveMessages.simps) simp
      qed
      obtain n mem s1 es1 where
        rd: "receiveData w s (drop (nat (recv_index s)) (recv_buffer s))
               (nat (content_size s - recv_index s)) es = (n, mem, s1, es1)"
        by (cases "receiveData w s (drop (nat (recv_index s)) (recv_buffer s))
               (nat (content_size s - recv_index s)) es") auto
      define s2 where "s2 = s1\<lparr>recv_buffer := take (nat (recv_index s)) (recv_buffer s) @ mem,
                             recv_index := recv_index s + int n\<rparr>"
      define res where "res = (if recv_index s2 = content_size s2 then processBuffer w s2 else Inr s2)"
      note run2 = run[unfolded receiveMessages_payload[OF conn False bound rd s2_def res_def]]
      from receiveData_state[OF rd]
      have "s2 = s\<lparr>client_fd := client_fd s1, content_size := content_size s,
                    recv_buffer := take (nat (recv_index s)) (recv_buffer s) @ mem,
                    recv_index := recv_index s + int n\<rparr>"
        by (auto simp: s2_def)
      with dispatched_since_transport[OF "1.prems"(2), where fd = "client_fd s1" and n = "content_size s"
          and buf = "take (nat (recv_index s)) (recv_buffer s) @ mem"
          and ri = "recv_index s + int n"]
      have r2: "dispatched_since w s0 s2"
        by simp
      from run2 obtain s3 where res: "res = Inr s3"
        by (cases res) auto
      have r3: "dispatched_since w s0 s3"
        using res r2 dispatched_since_processBuffer[OF r2, of s3]
        by (auto simp: res_def split: if_splits)
      show ?thesis
      proof (cases "n = 0")
        case True
        with run2 res have "s' = s3"
          by simp
        with r3 show ?thesis by simp
      next
        case nz: False
        with run2 res
        have "receiveMessages w s3 es1 = Inr (s', es')"
          by simp
        from "1.IH"(2)[OF conn False bound rd[symmetric] refl refl s2_def
            res[unfolded res_def] nz this r3]
        show ?thesis .
      qed
    qed
  qed
qed

lemma sensor_time_step_disjoint:
  assumes "sensor_time_step w c s = Inr s'" and "set (sensors s) \<inter> set (new_sensors s) = {}"
  shows "set (sensors s') \<inter> set (new_sensors s') = {}"
  using sensor_time_step_effect[OF assms(1)] assms(2)
  by (auto split: option.splits if_splits)

lemma sensor_time_steps_loop_disjoint:
  "sensor_time_steps_loop w cs s = Inr s' \<Longrightarrow> set (sensors s) \<inter> set (new_sensors s) = {}
     \<Longrightarrow> set (sensors s') \<inter> set (new_sensors s') = {}"
proof (induction cs arbitrary: s)
  case Nil
  then show ?case by simp
next
  case (Cons c cs)
  from Cons.prems(1) obtain s1 where c: "sensor_time_step w c s = Inr s1"
    and r: "sensor_time_steps_loop w cs s1 = Inr s'"
    by (auto split: sum.splits)
  from Cons.IH[OF r sensor_time_step_disjoint[OF c Cons.prems(2)]] show ?case .
qed

text \<open>A device is never in both sets: each dispatch keeps the two sets disjoint, and the promotion
  empties \<^verbatim>\<open>new_sensors\<close>.\<close>
lemma reporting_sets_disjoint:
  "processBuffer w s = Inr s' \<Longrightarrow> set (sensors s) \<inter> set (new_sensors s) = {}
     \<Longrightarrow> set (sensors s') \<inter> set (new_sensors s') = {}"
  "set (sensors (updateDevices s)) \<inter> set (new_sensors (updateDevices s)) = {}"
proof -
  show "set (sensors (updateDevices s)) \<inter> set (new_sensors (updateDevices s)) = {}"
    by (simp add: updateDevices_def)
  assume p: "processBuffer w s = Inr s'" and d: "set (sensors s) \<inter> set (new_sensors s) = {}"
  define s0 where "s0 = s\<lparr>recv_index := 0, content_size := 0, recv_buffer := [],
              dispatched := dispatched s @ [take (nat (recv_index s)) (recv_buffer s)]\<rparr>"
  define rq where "rq = ParseFromArray w (take (nat (recv_index s)) (recv_buffer s))"
  define s1 where "s1 = fold (camera_exposure w) (camera_exposures rq)
       (fold (camera_quality w) (camera_qualities rq)
       (fold (motor_pid w) (motor_pids rq)
       (fold (motor_torque w) (motor_torques rq)
       (fold (motor_force w) (motor_forces rq)
       (fold (motor_velocity w) (motor_velocities rq)
       (fold (motor_position w) (motor_positions rq) s0))))))"
  have "same_subscriptions s0 s1"
    unfolding s1_def
    by (intro same_subscriptions_trans[OF _ same_subscriptions_fold] same_subscriptions_fold
          same_subscriptions_commands)
  with d have d1: "set (sensors s1) \<inter> set (new_sensors s1) = {}"
    by (simp add: same_subscriptions_def s0_def)
  from p have "sensor_time_steps_loop w (sensor_time_steps rq) s1 = Inr s'"
    by (simp add: processBuffer_def Let_def apply_requests_def s1_def s0_def rq_def)
  from sensor_time_steps_loop_disjoint[OF this d1]
  show "set (sensors s') \<inter> set (new_sensors s') = {}" .
qed

subsection \<open>Building the snapshot\<close>

lemma time_mod_period_cases:
  "time_mod_period s d =
     (if to_unsigned (getSamplingPeriod s d) = 0 then Inl Division_By_Zero
      else Inr (uint (controller_time s) mod to_unsigned (getSamplingPeriod s d)))"
  by (simp add: time_mod_period_def Let_def)

lemma measure_device_unsamplable:
  "\<not> samplable w d \<Longrightarrow> measure_device w i s d sm = Inr sm"
  by (auto simp: measure_device_def samplable_def split: node_type.splits)

lemma measure_device_zero:
  "samplable w d \<Longrightarrow> to_unsigned (getSamplingPeriod s d) = 0 \<Longrightarrow>
     measure_device w i s d sm = Inl Division_By_Zero"
  by (auto simp: measure_device_def samplable_def time_mod_period_cases split: node_type.splits)

lemma measure_device_skip:
  "samplable w d \<Longrightarrow> to_unsigned (getSamplingPeriod s d) \<noteq> 0 \<Longrightarrow> \<not> due s d \<Longrightarrow>
     measure_device w i s d sm = Inr sm"
  by (auto simp: measure_device_def samplable_def time_mod_period_cases due_def
           split: node_type.splits)

lemma measure_device_sample:
  "samplable w d \<Longrightarrow> to_unsigned (getSamplingPeriod s d) \<noteq> 0 \<Longrightarrow> due s d \<Longrightarrow>
     \<exists>sm'. measure_device w i s d sm = Inr sm'
        \<and> set (measurement_names sm') = insert (getName w d) (set (measurement_names sm))
        \<and> messages sm' = messages sm \<and> time sm' = time sm \<and> real_time sm' = real_time sm"
  by (auto simp: measure_device_def samplable_def time_mod_period_cases due_def
        measurement_names_def split: node_type.splits touch_type.splits)

lemma measure_devices_names:
  "periods_set w s ds \<Longrightarrow>
     \<exists>sm'. measure_devices w i s ds sm = Inr sm'
        \<and> set (measurement_names sm')
            = set (measurement_names sm) \<union> {getName w d | d. d \<in> set ds \<and> samplable w d \<and> due s d}
        \<and> messages sm' = messages sm \<and> time sm' = time sm \<and> real_time sm' = real_time sm"
proof (induction ds arbitrary: sm)
  case Nil
  then show ?case by simp
next
  case (Cons d ds)
  from Cons.prems have rest: "periods_set w s ds"
    and here: "samplable w d \<longrightarrow> to_unsigned (getSamplingPeriod s d) \<noteq> 0"
    by (simp_all add: periods_set_def)
  consider (other) "\<not> samplable w d" | (skip) "samplable w d" "\<not> due s d" | (sample) "samplable w d" "due s d"
    by blast
  then show ?case
  proof cases
    case other
    from Cons.IH[OF rest, of sm] other show ?thesis
      by (auto simp: measure_device_unsamplable)
  next
    case skip
    with here have "measure_device w i s d sm = Inr sm"
      by (simp add: measure_device_skip)
    with Cons.IH[OF rest, of sm] skip show ?thesis
      by auto
  next
    case sample
    with here measure_device_sample[of w d s i sm] obtain sm1 where
      m: "measure_device w i s d sm = Inr sm1"
      and n: "set (measurement_names sm1) = insert (getName w d) (set (measurement_names sm))"
      and k: "messages sm1 = messages sm" "time sm1 = time sm" "real_time sm1 = real_time sm"
      by blast
    from Cons.IH[OF rest, of sm1] m n k sample show ?thesis
      by auto
  qed
qed

lemma measure_devices_Inr_names:
  "measure_devices w i s ds sm = Inr sm' \<Longrightarrow>
     set (measurement_names sm')
       = set (measurement_names sm) \<union> {getName w d | d. d \<in> set ds \<and> samplable w d \<and> due s d}"
proof (induction ds arbitrary: sm)
  case Nil
  then show ?case by simp
next
  case (Cons d ds)
  from Cons.prems obtain sm1 where m: "measure_device w i s d sm = Inr sm1"
    and r: "measure_devices w i s ds sm1 = Inr sm'"
    by (auto split: sum.splits)
  consider (other) "\<not> samplable w d"
    | (zero) "samplable w d" "to_unsigned (getSamplingPeriod s d) = 0"
    | (skip) "samplable w d" "to_unsigned (getSamplingPeriod s d) \<noteq> 0" "\<not> due s d"
    | (sample) "samplable w d" "to_unsigned (getSamplingPeriod s d) \<noteq> 0" "due s d"
    by blast
  then show ?case
  proof cases
    case other
    with m have "sm1 = sm" by (simp add: measure_device_unsamplable)
    with Cons.IH[OF r] other show ?thesis by auto
  next
    case zero
    with m show ?thesis by (simp add: measure_device_zero)
  next
    case skip
    with m have "sm1 = sm" by (simp add: measure_device_skip)
    with Cons.IH[OF r] skip show ?thesis by auto
  next
    case sample
    with measure_device_sample[of w d s i sm] m
    have "set (measurement_names sm1) = insert (getName w d) (set (measurement_names sm))"
      by auto
    with Cons.IH[OF r] sample show ?thesis by auto
  qed
qed

lemma prepareSensorMessage_names:
  assumes "periods_set w s (sensors s)"
  shows "\<exists>s'. prepareSensorMessage w i s = Inr s'
        \<and> set (measurement_names (sensor_measurements s'))
            = set (measurement_names (sensor_measurements s))
              \<union> {getName w d | d. d \<in> set (sensors s) \<and> samplable w d \<and> due s d}
        \<and> s' = s\<lparr>sensor_measurements := sensor_measurements s'\<rparr>"
proof -
  define sm where "sm = (sensor_measurements s)
                 \<lparr>time := controller_time s,
                  real_time := word_of_int (tv_sec i * 1000 + tv_usec i sdiv 1000)\<rparr>"
  from measure_devices_names[OF assms, of i sm] obtain sm' where
    "measure_devices w i s (sensors s) sm = Inr sm'"
    "set (measurement_names sm')
       = set (measurement_names sm) \<union> {getName w d | d. d \<in> set (sensors s) \<and> samplable w d \<and> due s d}"
    by blast
  then show ?thesis
    unfolding prepareSensorMessage_def Let_def sm_def[symmetric]
    by (simp add: sm_def)
qed

lemma prepareSensorMessage_Inr_names:
  assumes "prepareSensorMessage w i s = Inr s'"
  shows "set (measurement_names (sensor_measurements s'))
            = set (measurement_names (sensor_measurements s))
              \<union> {getName w d | d. d \<in> set (sensors s) \<and> samplable w d \<and> due s d}
        \<and> s' = s\<lparr>sensor_measurements := sensor_measurements s'\<rparr>"
proof -
  define sm where "sm = (sensor_measurements s)
                 \<lparr>time := controller_time s,
                  real_time := word_of_int (tv_sec i * 1000 + tv_usec i sdiv 1000)\<rparr>"
  from assms obtain sm' where m: "measure_devices w i s (sensors s) sm = Inr sm'"
    and s': "s' = s\<lparr>sensor_measurements := sm'\<rparr>"
    unfolding prepareSensorMessage_def Let_def sm_def[symmetric]
    by (cases "measure_devices w i s (sensors s) sm") auto
  from measure_devices_Inr_names[OF m] s' show ?thesis
    by (simp add: sm_def)
qed

subsection \<open>Quota and sending\<close>

lemma bandwidth_usage_Inr:
  assumes run: "bandwidth_usage i s n = Inr (b, s1)"
  shows "\<exists>window. s1 = s\<lparr>data_transferred := Some window\<rparr>"
proof -
  from run have z: "basic_time_step s \<noteq> 0"
    by (auto simp: bandwidth_usage_def)
  define ws where "ws = 1000 sdiv basic_time_step s"
  from run z have u: "to_unsigned ws \<noteq> 0"
    by (auto simp: bandwidth_usage_def ws_def Let_def)
  define idx where "idx = to_int ((uint (controller_time s) div to_unsigned (basic_time_step s))
                                     mod to_unsigned ws)"
  define window where "window = (case data_transferred s of
                                     None \<Rightarrow> replicate (nat ws) 0
                                   | Some a \<Rightarrow> a)"
  from run z u have "s1 = s\<lparr>data_transferred := Some (window[nat idx := to_int (int n)])\<rparr>"
    unfolding bandwidth_usage_def ws_def[symmetric] Let_def idx_def[symmetric] window_def[symmetric]
    by (simp split: if_splits sum.splits)
  then show ?thesis by blast
qed


lemma send_all_loop_prefix:
  "send_all_loop i socket k buffer acc = (ok, out, calls) \<Longrightarrow>
     \<exists>rest. acc @ buffer = out @ rest \<and> (ok \<longleftrightarrow> rest = [])"
proof (induction i socket k buffer acc rule: send_all_loop.induct)
  case (1 i socket k buffer acc)
  note run = "1.prems"[unfolded send_all_loop.simps[of i socket k buffer acc]]
  show ?case
  proof (cases "0 < length buffer")
    case False
    with run show ?thesis by simp
  next
    case True
    define n where "n = send_call i socket k (length buffer)"
    show ?thesis
    proof (cases "n < 1")
      case True
      with run \<open>0 < length buffer\<close> show ?thesis by (auto simp: n_def Let_def)
    next
      case False
      with run \<open>0 < length buffer\<close>
      have "send_all_loop i socket (Suc k) (drop (nat n) buffer) (acc @ take (nat n) buffer)
              = (ok, out, calls)"
        by (simp add: n_def Let_def)
      from "1.IH"[OF \<open>0 < length buffer\<close> n_def[symmetric, THEN sym] False this]
      show ?thesis by simp
    qed
  qed
qed

lemma send_all_loop_completes:
  "send_all_loop i socket k buffer acc = (ok, out, calls) \<Longrightarrow>
     socket \<noteq> -1 \<Longrightarrow> (\<And>j. 1 \<le> send_room i j) \<Longrightarrow> ok"
proof (induction i socket k buffer acc rule: send_all_loop.induct)
  case (1 i socket k buffer acc)
  note run = "1.prems"(1)[unfolded send_all_loop.simps[of i socket k buffer acc]]
  show ?case
  proof (cases "0 < length buffer")
    case False
    with run show ?thesis by simp
  next
    case True
    define n where "n = send_call i socket k (length buffer)"
    have "\<not> n < 1"
      using "1.prems"(2) "1.prems"(3)[of k] True by (cases buffer) (auto simp: n_def send_call_def)
    with run True
    have "send_all_loop i socket (Suc k) (drop (nat n) buffer) (acc @ take (nat n) buffer)
              = (ok, out, calls)"
      by (simp add: n_def Let_def)
    from "1.IH"[OF True n_def[symmetric, THEN sym] \<open>\<not> n < 1\<close> this "1.prems"(2) "1.prems"(3)]
    show ?thesis .
  qed
qed

lemma sendSensorMessage_Inr:
  assumes run: "sendSensorMessage w i s = Inr (r, s')"
  shows "\<exists>b s1.
           bandwidth_usage i s (ByteSizeLong w (sensor_measurements s) mod 2 ^ 32) = Inr (b, s1)
         \<and> checked_size r = ByteSizeLong w (sensor_measurements s) mod 2 ^ 32
         \<and> bandwidth r = b
         \<and> payload r = (if TEAM_QUOTA < usage b then quota_exceeded else sensor_measurements s)
         \<and> frame r = htonl (ByteSizeLong w (payload r) mod 2 ^ 32)
                       @ take (ByteSizeLong w (payload r) mod 2 ^ 32) (SerializeToArray w (payload r))
         \<and> send_all i (client_fd s) (frame r) = (completed r, written r, send_calls r)
         \<and> s' = s1\<lparr>sensor_measurements := Clear\<rparr>"
proof -
  define sz where "sz = ByteSizeLong w (sensor_measurements s) mod 2 ^ 32"
  from run obtain b s1 where bw: "bandwidth_usage i s sz = Inr (b, s1)"
    unfolding sendSensorMessage_def Let_def sz_def[symmetric]
    by (cases "bandwidth_usage i s sz") auto
  from bandwidth_usage_Inr[OF bw] obtain window where s1: "s1 = s\<lparr>data_transferred := Some window\<rparr>"
    by blast
  define pl where "pl = (if TEAM_QUOTA < usage b then quota_exceeded else sensor_measurements s)"
  define fr where "fr = htonl (ByteSizeLong w pl mod 2 ^ 32)
                       @ take (ByteSizeLong w pl mod 2 ^ 32) (SerializeToArray w pl)"
  obtain ok out calls where sa: "send_all i (client_fd s) fr = (ok, out, calls)"
    by (cases "send_all i (client_fd s) fr")
  have "r = \<lparr>checked_size = sz, bandwidth = b, payload = pl, frame = fr, written = out,
              send_calls = calls, completed = ok\<rparr> \<and> s' = s1\<lparr>sensor_measurements := Clear\<rparr>"
  proof (cases "TEAM_QUOTA < usage b")
    case True
    with run bw s1 sa show ?thesis
      unfolding sendSensorMessage_def Let_def sz_def[symmetric]
      by (simp add: pl_def fr_def)
  next
    case False
    with run bw s1 sa show ?thesis
      unfolding sendSensorMessage_def Let_def sz_def[symmetric]
      by (simp add: pl_def fr_def sz_def)
  qed
  with bw sa show ?thesis
    by (simp add: sz_def pl_def fr_def)
qed

lemma quota_run_Inr: "quota_run = Inr (fst (projr quota_run), snd (projr quota_run))"
proof -
  have "\<not> isl quota_run" by code_simp
  then show ?thesis by (cases quota_run) auto
qed

lemma slow_run_Inr: "slow_run = Inr (fst (projr slow_run), snd (projr slow_run))"
proof -
  have "\<not> isl slow_run" by code_simp
  then show ?thesis by (cases slow_run) auto
qed

subsection \<open>One step\<close>

lemma step_connected:
  assumes run: "step w i s socket = Inr (rep, s', socket')" and conn: "client_fd s \<noteq> -1"
  shows "\<exists>s2 s3 r.
           dispatched_since w (s\<lparr>controller_time := controller_time s + word_of_int (basic_time_step s)\<rparr>) s2
         \<and> prepareSensorMessage w i s2 = Inr s3
         \<and> sendSensorMessage w i (updateDevices s3) = Inr (r, s')
         \<and> snapshot rep = Some (sensor_measurements s3)"
proof -
  define s1 where "s1 = s\<lparr>controller_time := controller_time s + word_of_int (basic_time_step s)\<rparr>"
  define rc where "rc = (if select_retval i = -1 then Inr (s1, socket @ arrivals i)
                  else receiveMessages w s1 (socket @ arrivals i))"
  from run conn
  have run2: "(case rc of
              Inl e \<Rightarrow> Inl e
            | Inr (s2, socket') \<Rightarrow>
                (case prepareSensorMessage w i s2 of
                   Inl e \<Rightarrow> Inl e
                 | Inr s3 \<Rightarrow>
                     (case sendSensorMessage w i (updateDevices s3) of
                        Inl e \<Rightarrow> Inl e
                      | Inr (r, s4) \<Rightarrow>
                          Inr (\<lparr>token = [], snapshot = Some (sensor_measurements s3), sent = Some r\<rparr>,
                               s4, socket')))) = Inr (rep, s', socket')"
    unfolding step_def Let_def s1_def[symmetric] rc_def[symmetric] by simp
  then obtain s2 sk where rc: "rc = Inr (s2, sk)"
    by (cases rc) auto
  with run2 obtain s3 where p: "prepareSensorMessage w i s2 = Inr s3"
    by (cases "prepareSensorMessage w i s2") auto
  with run2 rc obtain r s4 where sd: "sendSensorMessage w i (updateDevices s3) = Inr (r, s4)"
    by (cases "sendSensorMessage w i (updateDevices s3)") auto
  from run2 rc p sd have e: "s' = s4" "snapshot rep = Some (sensor_measurements s3)"
    by auto
  have "dispatched_since w s1 s2"
  proof (cases "select_retval i = -1")
    case True
    with rc have "s2 = s1" by (simp add: rc_def)
    then show ?thesis by (simp add: dispatched_since_refl)
  next
    case False
    with rc have "receiveMessages w s1 (socket @ arrivals i) = Inr (s2, sk)"
      by (simp add: rc_def)
    from receiveMessages_dispatched_since[OF this dispatched_since_refl] show ?thesis .
  qed
  with p sd e show ?thesis
    unfolding s1_def by blast
qed

text \<open>Between steps the snapshot holds no measurement: the hypothesis of C2 and C7 on the state
  at the start of a step holds in every state a run reaches from the constructor's.\<close>
lemma step_leaves_snapshot_clean:
  assumes "step w i s socket = Inr (rep, s', socket')"
    and "measurement_names (sensor_measurements s) = []"
  shows "measurement_names (sensor_measurements s') = []"
proof (cases "client_fd s = -1")
  case True
  with assms show ?thesis
    by (auto simp: step_def Let_def split: prod.splits if_splits)
next
  case False
  from step_connected[OF assms(1) False] obtain r s3 where
    "sendSensorMessage w i (updateDevices s3) = Inr (r, s')"
    by blast
  from sendSensorMessage_Inr[OF this] show ?thesis
    by (auto simp: measurement_names_def Clear_def)
qed

lemma step_view_Inr:
  assumes "step_view r = Inr (ns, ds, ps, p, t, fd)"
  shows "r = Inr (fst (projr r), fst (snd (projr r)), snd (snd (projr r)))
       \<and> snapshot_names (fst (projr r)) = ns \<and> sensors (fst (snd (projr r))) = ds
       \<and> dispatched (fst (snd (projr r))) = ps \<and> getSamplingPeriod (fst (snd (projr r))) 1 = p
       \<and> controller_time (fst (snd (projr r))) = t \<and> client_fd (fst (snd (projr r))) = fd"
  using assms by (cases r) (auto simp: step_view_def)

section \<open>The claims\<close>

subsection \<open>C1: chunking invariance of the framed transport\<close>

text \<open>
  C1 says that however a stream of length-prefixed messages is split into chunks across the
  polls of successive steps, also inside the 4-byte header, the dispatcher receives the
  same payloads as when each message arrives whole. The code keeps the progress of a
  partly received payload in \<^verbatim>\<open>recv_index\<close>, but nothing for a partly received header:
  \<^verbatim>\<open>receiveMessages\<close> converts and uses \<^verbatim>\<open>content_size\<close> whatever
  \<^verbatim>\<open>receiveData\<close> returned. The message \<open>00 00 00 01 41\<close> delivered whole is
  dispatched; delivered as \<open>00\<close> and then \<open>00 00 01 41\<close> it is not: the second poll
  reads \<open>00 00 01 41\<close> as a header announcing 321 bytes. A split inside the payload is
  handled: \<open>00 00 00 02 41\<close> and then \<open>42\<close> dispatches \<open>41 42\<close>, as the whole message does.
\<close>
theorem C1_split_header_loses_message:
  "map_sum id dispatched (receive_chunks demo_world [[0, 0, 0, 1, 65]] connected_server)
     = Inr [[65]]
   \<and> map_sum id (\<lambda>s. (dispatched s, content_size s, recv_index s))
        (receive_chunks demo_world [[0], [0, 0, 1, 65]] connected_server)
     = Inr ([], 321, 0)
   \<and> map_sum id dispatched (receive_chunks demo_world [[0, 0, 0, 2, 65, 66]] connected_server)
     = Inr [[65, 66]]
   \<and> map_sum id dispatched (receive_chunks demo_world [[0, 0, 0, 2, 65], [66]] connected_server)
     = Inr [[65, 66]]"
  by code_simp

subsection \<open>C2: subscription-promotion ordering\<close>

text \<open>
  C2, for a step made with a client connected, from a state whose snapshot holds no
  measurement yet (as between steps, see \<open>step_leaves_snapshot_clean\<close>), and for every device
  \<open>d\<close>. The step builds a snapshot, and:
  \<^item> a device that is not active when the step starts, no active device bearing its name,
    has no measurement in this step's snapshot, whatever the step dispatches;
  \<^item> if the step dispatches an accepted enable command for such a device, the device is
    active when the step ends;
  \<^item> an active device for which the step dispatches no disable command is still active when
    the step ends, and if it is of a sampled kind and the step's time is a multiple of its
    period, the snapshot has its measurement: so a device enabled in step N reports from
    step N+1 on, for as long as it stays enabled and whenever its period divides the time;
  \<^item> if the step dispatches a disable command (period 0) for a device, the snapshot has no
    measurement of it (no other active device bearing its name).
  The period read by the sampling test and the time are those of the state the step leaves:
  nothing after the dispatch changes them.
\<close>
theorem C2_subscription_promotion_ordering:
  assumes run: "step w i s socket = Inr (rep, s', socket')"
    and conn: "client_fd s \<noteq> -1"
    and clean: "measurement_names (sensor_measurements s) = []"
  shows "\<exists>snap. snapshot rep = Some snap
     \<and> (d \<notin> set (sensors s) \<and> (\<forall>d' \<in> set (sensors s). getName w d' \<noteq> getName w d)
          \<longrightarrow> getName w d \<notin> set (measurement_names snap))
     \<and> (d \<notin> set (sensors s)
          \<and> (\<exists>c \<in> set (time_step_commands w (step_payloads s s')). enables w s d c)
          \<longrightarrow> d \<in> set (sensors s'))
     \<and> (d \<in> set (sensors s)
          \<and> (\<forall>c \<in> set (time_step_commands w (step_payloads s s')). \<not> disables w d c)
          \<longrightarrow> d \<in> set (sensors s'))
     \<and> (d \<in> set (sensors s) \<and> samplable w d
          \<and> (\<forall>c \<in> set (time_step_commands w (step_payloads s s')). \<not> disables w d c)
          \<and> 0 < getSamplingPeriod s' d \<and> getSamplingPeriod s' d < 2 ^ 32
          \<and> uint (controller_time s') mod getSamplingPeriod s' d = 0
          \<longrightarrow> getName w d \<in> set (measurement_names snap))
     \<and> ((\<exists>c \<in> set (time_step_commands w (step_payloads s s')). disables w d c)
          \<and> (\<forall>d' \<in> set (sensors s). getName w d' = getName w d \<longrightarrow> d' = d)
          \<longrightarrow> getName w d \<notin> set (measurement_names snap))"
proof -
  define s1 where "s1 = s\<lparr>controller_time := controller_time s + word_of_int (basic_time_step s)\<rparr>"
  from step_connected[OF run conn] obtain s2 s3 r where
    rc: "dispatched_since w s1 s2"
    and p: "prepareSensorMessage w i s2 = Inr s3"
    and sd: "sendSensorMessage w i (updateDevices s3) = Inr (r, s')"
    and snap: "snapshot rep = Some (sensor_measurements s3)"
    unfolding s1_def by blast
  from rc obtain ps where d2: "dispatched s2 = dispatched s @ ps"
    and t: "tracks w s1 (time_step_commands w ps) s2"
    by (auto simp: dispatched_since_def s1_def)
  note pn = prepareSensorMessage_Inr_names[OF p]
  from pn have s3: "s3 = s2\<lparr>sensor_measurements := sensor_measurements s3\<rparr>" by simp
  from sendSensorMessage_Inr[OF sd] obtain b s4 where
    bw: "bandwidth_usage i (updateDevices s3) (ByteSizeLong w (sensor_measurements (updateDevices s3)) mod 2 ^ 32)
           = Inr (b, s4)"
    and s': "s' = s4\<lparr>sensor_measurements := Clear\<rparr>"
    by blast
  from bandwidth_usage_Inr[OF bw] obtain window where
    s4: "s4 = (updateDevices s3)\<lparr>data_transferred := Some window\<rparr>"
    by blast
  have fin: "dispatched s' = dispatched s2" "set (sensors s') = set (sensors s2) \<union> set (new_sensors s2)"
    "sampling_period s' = sampling_period s2" "controller_time s' = controller_time s2"
    unfolding s' s4 updateDevices_def by (subst s3, simp, blast?)+
  have ps: "step_payloads s s' = ps"
    using fin(1) d2 by (simp add: step_payloads_def)
  from t have sub: "set (sensors s2) \<subseteq> set (sensors s)"
    and names2: "measurement_names (sensor_measurements s2) = []"
    and bts: "basic_time_step s2 = basic_time_step s"
    and gone: "\<And>d. \<exists>c \<in> set (time_step_commands w ps). getDevice w (fst c) = Some d \<and> snd c = 0
                 \<Longrightarrow> d \<notin> set (sensors s2)"
    and kept: "\<And>d. d \<in> set (sensors s) \<Longrightarrow>
                 \<forall>c \<in> set (time_step_commands w ps). getDevice w (fst c) = Some d \<longrightarrow> snd c \<noteq> 0
                 \<Longrightarrow> d \<in> set (sensors s2)"
    and staged: "\<And>d. d \<notin> set (sensors s) \<Longrightarrow>
                 \<exists>c \<in> set (time_step_commands w ps). getDevice w (fst c) = Some d \<and> snd c \<noteq> 0
                 \<Longrightarrow> d \<in> set (new_sensors s2)"
    using clean unfolding tracks_def s1_def by simp_all
  from pn names2 have names: "set (measurement_names (sensor_measurements s3))
            = {getName w d | d. d \<in> set (sensors s2) \<and> samplable w d \<and> due s2 d}"
    by simp
  have a: "getName w d \<notin> set (measurement_names (sensor_measurements s3))"
    if "d \<notin> set (sensors s)" "\<forall>d' \<in> set (sensors s). getName w d' \<noteq> getName w d"
    using that sub names by auto
  have b: "d \<in> set (sensors s')"
    if "d \<notin> set (sensors s)" "\<exists>c \<in> set (time_step_commands w (step_payloads s s')). enables w s d c"
  proof -
    from that(2) have "\<exists>c \<in> set (time_step_commands w ps). getDevice w (fst c) = Some d \<and> snd c \<noteq> 0"
      by (auto simp: ps enables_def)
    from staged[OF that(1) this] fin(2) show ?thesis by simp
  qed
  have k: "d \<in> set (sensors s')"
    if "d \<in> set (sensors s)"
      "\<forall>c \<in> set (time_step_commands w (step_payloads s s')). \<not> disables w d c"
  proof -
    from that(2) have "\<forall>c \<in> set (time_step_commands w ps). getDevice w (fst c) = Some d \<longrightarrow> snd c \<noteq> 0"
      by (auto simp: ps disables_def)
    from kept[OF that(1) this] fin(2) show ?thesis by simp
  qed
  have c: "getName w d \<in> set (measurement_names (sensor_measurements s3))"
    if "d \<in> set (sensors s)" "samplable w d"
      "\<forall>c \<in> set (time_step_commands w (step_payloads s s')). \<not> disables w d c"
      "0 < getSamplingPeriod s' d" "getSamplingPeriod s' d < 2 ^ 32"
      "uint (controller_time s') mod getSamplingPeriod s' d = 0"
  proof -
    from that(3) have "\<forall>c \<in> set (time_step_commands w ps). getDevice w (fst c) = Some d \<longrightarrow> snd c \<noteq> 0"
      by (auto simp: ps disables_def)
    from kept[OF that(1) this] have in2: "d \<in> set (sensors s2)" .
    have "to_unsigned (getSamplingPeriod s' d) = getSamplingPeriod s' d"
      using that(4,5) by (simp add: to_unsigned_def)
    with that(6) have "due s2 d"
      by (simp add: due_def getSamplingPeriod_def fin)
    with in2 that(2) names show ?thesis by auto
  qed
  have e: "getName w d \<notin> set (measurement_names (sensor_measurements s3))"
    if "\<exists>c \<in> set (time_step_commands w (step_payloads s s')). disables w d c"
      "\<forall>d' \<in> set (sensors s). getName w d' = getName w d \<longrightarrow> d' = d"
  proof -
    from that(1) have "\<exists>c \<in> set (time_step_commands w ps). getDevice w (fst c) = Some d \<and> snd c = 0"
      by (auto simp: ps disables_def)
    from gone[OF this] have "d \<notin> set (sensors s2)" .
    with that(2) sub names show ?thesis by auto
  qed
  from snap a b k c e show ?thesis by blast
qed

text \<open>
  The gyro, inactive, is enabled at period 64 in the step for time 32: that snapshot has no
  gyro measurement and the gyro is active afterwards; the next step, for time 64, reports
  it. Disabled in the step for time 128, when it is active and due, it is not reported.
\<close>
theorem C2_subscription_promotion_ordering_witness:
  "1 \<notin> set (sensors connected_server)
   \<and> ''gyro'' \<notin> set (snapshot_names (fst (projr enable_step)))
   \<and> 1 \<in> set (sensors after_enable)
   \<and> ''gyro'' \<in> set (snapshot_names (fst (projr report_step)))
   \<and> 1 \<in> set (sensors (sampling_server 96))
   \<and> ''gyro'' \<notin> set (snapshot_names (fst (projr disable_step)))"
proof -
  have g: "getName demo_world 1 = ''gyro''" "samplable demo_world 1" by code_simp+
  have v1: "step_view enable_step = Inr ([], [1], [[1, 64]], 64, 32, 4)" by code_simp
  have v2: "step_view report_step = Inr ([''gyro''], [1], [[1, 64]], 64, 64, 4)" by code_simp
  have v3: "step_view disable_step = Inr ([], [], [[1, 0]], 0, 128, 4)" by code_simp
  note e1 = step_view_Inr[OF v1, folded after_enable_def]
  note e2 = step_view_Inr[OF v2]
  note e3 = step_view_Inr[OF v3]
  have c0: "client_fd connected_server \<noteq> -1"
    "measurement_names (sensor_measurements connected_server) = []"
    "sensors connected_server = []" "dispatched connected_server = []"
    by code_simp+
  have c1: "measurement_names (sensor_measurements after_enable) = []"
    by code_simp
  have c3: "client_fd (sampling_server 96) \<noteq> -1"
    "measurement_names (sensor_measurements (sampling_server 96)) = []"
    "sensors (sampling_server 96) = [1]" "dispatched (sampling_server 96) = []"
    by code_simp+
  have k1: "\<exists>c \<in> set (time_step_commands demo_world [[1, 64]]).
              enables demo_world connected_server 1 c"
    by code_simp
  have k2: "\<forall>c \<in> set (time_step_commands demo_world []). \<not> disables demo_world 1 c"
    by code_simp
  have k3: "\<exists>c \<in> set (time_step_commands demo_world [[1, 0]]). disables demo_world 1 c"
    by code_simp
  have run1: "step demo_world enable_input connected_server []
                = Inr (fst (projr enable_step), after_enable, snd (snd (projr enable_step)))"
    using e1 by (simp add: enable_step_def)
  have run2: "step demo_world demo_input after_enable []
                = Inr (fst (projr report_step), fst (snd (projr report_step)),
                       snd (snd (projr report_step)))"
    using e2 by (simp add: report_step_def)
  have run3: "step demo_world disable_input (sampling_server 96) []
                = Inr (fst (projr disable_step), fst (snd (projr disable_step)),
                       snd (snd (projr disable_step)))"
    using e3 by (simp add: disable_step_def)
  have fd1: "client_fd after_enable \<noteq> -1" using e1 by simp
  from C2_subscription_promotion_ordering[OF run1 c0(1,2), of 1] k1 e1
  have a: "''gyro'' \<notin> set (snapshot_names (fst (projr enable_step)))"
    "1 \<in> set (sensors after_enable)"
    by (simp_all add: c0 step_payloads_def del: One_nat_def)
  from C2_subscription_promotion_ordering[OF run2 fd1 c1, of 1] k2 e1 e2 g
  have b: "''gyro'' \<in> set (snapshot_names (fst (projr report_step)))"
    by (simp add: step_payloads_def snapshot_names_def del: One_nat_def)
  from C2_subscription_promotion_ordering[OF run3 c3(1,2), of 1] k3 e3 g
  have c: "''gyro'' \<notin> set (snapshot_names (fst (projr disable_step)))"
    by (simp add: step_payloads_def c3 del: One_nat_def)
  from a b c c0(3) c3(3) show ?thesis by simp
qed

subsection \<open>C3: the sampling test never divides by zero\<close>

text \<open>
  C3 says that every device in the active set when the snapshot is built has a non-zero
  sampling period. The device staged by a rejected command (C4) is promoted by
  \<^verbatim>\<open>updateDevices\<close> with the period 0 it never left. From the constructor's state: the
  first step accepts the client, the second receives a message asking period 16 for the
  gyro and ends with the gyro active at period 0, and the snapshot of the third step
  computes \<^verbatim>\<open>controller_time % 0\<close>.
\<close>
theorem C3_active_device_with_period_zero:
  "map_sum id (\<lambda>r. (sensors (fst (snd r)), sampling_period (fst (snd r)) 1))
     (steps demo_world
        [demo_input, demo_input\<lparr>arrivals := [Recv_Bytes [0, 0, 0, 2, 1, 16]]\<rparr>]
        demo_server [])
     = Inr ([1], 0)
   \<and> map_sum id fst
       (steps demo_world
          [demo_input, demo_input\<lparr>arrivals := [Recv_Bytes [0, 0, 0, 2, 1, 16]]\<rparr>, demo_input]
          demo_server [])
     = Inl Division_By_Zero"
  by code_simp

subsection \<open>C4: a rejected time step changes no subscription state\<close>

text \<open>
  C4 says that a subscription command with a non-zero period below the basic time step,
  or not a multiple of it, yields one warning and leaves the subscription state as it
  was. The code inserts the device into \<^verbatim>\<open>new_sensors\<close> before it validates the period.
  With a basic time step of 32, the gyro neither active nor pending, the periods 16 and 48
  are both rejected with one warning and the gyro's sampling stays unconfigured (period
  0), but the gyro is now pending.
\<close>
theorem C4_rejected_time_step_is_staged:
  "new_sensors connected_server = []
   \<and> map_sum id (\<lambda>s. (sensors s, new_sensors s, sampling_period s 1,
                        length (messages (sensor_measurements s))))
        (sensor_time_step demo_world (''gyro'', 16) connected_server)
     = Inr ([], [1], 0, 1)
   \<and> map_sum id (\<lambda>s. (sensors s, new_sensors s, sampling_period s 1,
                        length (messages (sensor_measurements s))))
        (sensor_time_step demo_world (''gyro'', 48) connected_server)
     = Inr ([], [1], 0, 1)"
  by code_simp

subsection \<open>C5: the two reporting sets\<close>

text \<open>
  C5 says that after every dispatch and every promotion a device is in at most one of the
  two sets, and that a device with sampling period 0 is in neither, also when a period-0
  command disables a device that the same batch had staged. The first half holds
  (\<open>reporting_sets_disjoint\<close>). For the second, a period-0 command erases the device from
  \<^verbatim>\<open>sensors\<close> only: one message enabling the gyro at 32 and then disabling it leaves
  the gyro pending with period 0, and the promotion makes it active with period 0.
\<close>
theorem C5_disabled_device_stays_pending:
  "map_sum id (\<lambda>s. (sensors s, new_sensors s, sampling_period s 1,
                      sensors (updateDevices s)))
     (receive_chunks demo_world [[0, 0, 0, 4, 1, 32, 1, 0]] connected_server)
     = Inr ([], [1], 0, [1])"
  by code_simp

subsection \<open>C6: the snapshot is replaced when the quota is exceeded\<close>

text \<open>
  C6 as amended: on a step where \<^verbatim>\<open>bandwidth_usage\<close>, applied to the size of the
  serialized snapshot, returns more than \<^verbatim>\<open>TEAM_QUOTA\<close>, the snapshot is replaced by a
  message that holds exactly one entry, an error record whose text carries the quota value,
  and nothing else; the frame handed to \<^verbatim>\<open>send_all\<close> is the length prefix and the
  serialization of that replacement; and \<^verbatim>\<open>bandwidth_usage\<close> is not applied again: the
  state after the step is the state after that one call, with the snapshot cleared. Nothing
  is said about which of the two sizes is the smaller.
\<close>
theorem C6_quota_exceeded_replacement:
  assumes "sendSensorMessage w i s = Inr (r, s')"
    and "TEAM_QUOTA < usage (bandwidth r)"
  shows "payload r = quota_exceeded
       \<and> quota_exceeded = Clear\<lparr>messages := [(ERROR_MESSAGE, ''1048576000 MB/s quota exceeded.'')]\<rparr>
       \<and> frame r = htonl (ByteSizeLong w quota_exceeded mod 2 ^ 32)
                     @ take (ByteSizeLong w quota_exceeded mod 2 ^ 32)
                         (SerializeToArray w quota_exceeded)
       \<and> send_all i (client_fd s) (frame r) = (completed r, written r, send_calls r)
       \<and> (\<exists>s1. bandwidth_usage i s (ByteSizeLong w (sensor_measurements s) mod 2 ^ 32)
                  = Inr (bandwidth r, s1)
               \<and> s' = s1\<lparr>sensor_measurements := Clear\<rparr>)"
proof -
  from sendSensorMessage_Inr[OF assms(1)] assms(2)
  have "payload r = quota_exceeded"
    and "frame r = htonl (ByteSizeLong w (payload r) mod 2 ^ 32)
                       @ take (ByteSizeLong w (payload r) mod 2 ^ 32) (SerializeToArray w (payload r))"
    and "send_all i (client_fd s) (frame r) = (completed r, written r, send_calls r)"
    and "\<exists>s1. bandwidth_usage i s (ByteSizeLong w (sensor_measurements s) mod 2 ^ 32)
                  = Inr (bandwidth r, s1)
               \<and> s' = s1\<lparr>sensor_measurements := Clear\<rparr>"
    by auto
  moreover have "quota_exceeded = Clear\<lparr>messages := [(ERROR_MESSAGE, ''1048576000 MB/s quota exceeded.'')]\<rparr>"
    using quota_exceeded_text by (simp add: quota_exceeded_def)
  ultimately show ?thesis by simp
qed

text \<open>
  With the protobuf wire format and a team mate's window of 1048576000 bytes, the snapshot
  of 9 bytes is replaced and the frame sent is the prefix for 35 bytes and the replacement.
\<close>
theorem C6_quota_exceeded_replacement_witness:
  "TEAM_QUOTA < usage (bandwidth (fst (projr quota_run)))
   \<and> payload (fst (projr quota_run)) = quota_exceeded
   \<and> frame (fst (projr quota_run))
       = htonl 35 @ SerializeToArray demo_world quota_exceeded
   \<and> written (fst (projr quota_run)) = frame (fst (projr quota_run))"
proof -
  have q: "TEAM_QUOTA < usage (bandwidth (fst (projr quota_run)))" by code_simp
  have n: "ByteSizeLong demo_world quota_exceeded = 35" by code_simp
  have w: "written (fst (projr quota_run)) = frame (fst (projr quota_run))" by code_simp
  from C6_quota_exceeded_replacement[OF quota_run_Inr[unfolded quota_run_def] q[unfolded quota_run_def]]
  show ?thesis
    using q n w by (simp add: quota_run_def ByteSizeLong_def)
qed

text \<open>
  C6 as stated also says that the replacement is strictly smaller than the original
  payload. In the same run the check is applied to a snapshot of 9 bytes (a time and a
  clock stamp, no measurement), the total returned is 1048576009, and the replacement
  sent is 35 bytes long.
\<close>
theorem C6_replacement_is_larger:
  "map_sum id (\<lambda>r. (checked_size (fst r), usage (bandwidth (fst r)),
                     payload (fst r) = quota_exceeded,
                     ByteSizeLong demo_world (payload (fst r)))) quota_run
     = Inr (9, 1048576009, True, 35)"
  by code_simp

subsection \<open>C7: sampling alignment\<close>

text \<open>
  C7: for an active device of a sampled kind whose period \<open>P\<close> is a positive C \<^verbatim>\<open>int\<close>,
  the snapshot built at time \<open>t\<close> is built and has the device's measurement if and only
  if \<open>t mod P = 0\<close>. The theorem needs no more of \<open>P\<close>; that it is a multiple of the
  step is what the dispatcher checks before it sets a period. The conditions on the other
  devices are that none of them stops the loop by a zero period (see C3) and that none
  bears the same name, and the snapshot holds no measurement before it is built.
\<close>
theorem C7_sampling_alignment:
  assumes "d \<in> set (sensors s)"
    and "samplable w d"
    and "0 < getSamplingPeriod s d" and "getSamplingPeriod s d < 2 ^ 32"
    and "\<forall>d' \<in> set (sensors s). samplable w d' \<longrightarrow> to_unsigned (getSamplingPeriod s d') \<noteq> 0"
    and "\<forall>d' \<in> set (sensors s). getName w d' = getName w d \<longrightarrow> d' = d"
    and "measurement_names (sensor_measurements s) = []"
  shows "\<exists>s'. prepareSensorMessage w i s = Inr s'
           \<and> (getName w d \<in> set (measurement_names (sensor_measurements s'))
                \<longleftrightarrow> uint (controller_time s) mod getSamplingPeriod s d = 0)"
proof -
  have u: "to_unsigned (getSamplingPeriod s d) = getSamplingPeriod s d"
    using assms(3,4) by (simp add: to_unsigned_def)
  from assms(5) have "periods_set w s (sensors s)"
    by (simp add: periods_set_def)
  from prepareSensorMessage_names[OF this, of i] obtain s' where
    p: "prepareSensorMessage w i s = Inr s'"
    and n: "set (measurement_names (sensor_measurements s'))
            = {getName w d | d. d \<in> set (sensors s) \<and> samplable w d \<and> due s d}"
    using assms(7) by auto
  have "getName w d \<in> set (measurement_names (sensor_measurements s')) \<longleftrightarrow> due s d"
    using n assms(1,2,6) by auto
  with p u show ?thesis
    by (auto simp: due_def)
qed

text \<open>
  With a basic time step of 32 and the gyro at period 64: sampled at the times 0, 64 and 128,
  not at 32 and 96.
\<close>
theorem C7_sampling_alignment_witness:
  "basic_time_step (sampling_server 0) = 32 \<and> getSamplingPeriod (sampling_server 0) 1 = 64
   \<and> map (\<lambda>t. ''gyro'' \<in> set (projr (sampled_names t))) [0, 32, 64, 96, 128]
       = [True, False, True, False, True]"
proof -
  have h: "1 \<in> set (sensors (sampling_server t))" "samplable demo_world 1"
    "0 < getSamplingPeriod (sampling_server t) 1" "getSamplingPeriod (sampling_server t) 1 < 2 ^ 32"
    "\<forall>d' \<in> set (sensors (sampling_server t)). samplable demo_world d'
        \<longrightarrow> to_unsigned (getSamplingPeriod (sampling_server t) d') \<noteq> 0"
    "\<forall>d' \<in> set (sensors (sampling_server t)). getName demo_world d' = getName demo_world 1 \<longrightarrow> d' = 1"
    "measurement_names (sensor_measurements (sampling_server t)) = []" for t
    by (simp_all add: sampling_server_def connected_server_def demo_server_def PlayerServer_init_def
          samplable_def demo_world_def getSamplingPeriod_def to_unsigned_def measurement_names_def
          Clear_def)
  have v: "getSamplingPeriod (sampling_server t) 1 = 64" "controller_time (sampling_server t) = t"
    "basic_time_step (sampling_server t) = 32" for t
    by (simp_all add: sampling_server_def connected_server_def demo_server_def PlayerServer_init_def
          demo_world_def getSamplingPeriod_def)
  have g: "getName demo_world 1 = ''gyro''"
    by code_simp
  have k: "''gyro'' \<in> set (projr (sampled_names t)) \<longleftrightarrow> uint t mod 64 = 0" for t
    using C7_sampling_alignment[OF h(1)[of t] h(2) h(3)[of t] h(4)[of t] h(5)[of t] h(6)[of t]
        h(7)[of t], where i = demo_input]
    by (auto simp: v g sampled_names_def simp del: One_nat_def)
  show ?thesis
    by (simp add: k v del: One_nat_def)
qed

subsection \<open>C8: the policy on read errors\<close>




subsection \<open>C9: completion and failure of the send\<close>

text \<open>
  C9 as amended: the bytes written by a step's send are a prefix of the frame, the send
  reports completion exactly when that prefix is the whole frame, and it is the whole
  frame whenever the descriptor is open and no call of the write primitive fails;
  \<^verbatim>\<open>sendSensorMessage\<close> leaves \<^verbatim>\<open>client_fd\<close> as it was in every case, also when the
  send did not complete.
\<close>
theorem C9_send_semantics:
  assumes "sendSensorMessage w i s = Inr (r, s')"
  shows "client_fd s' = client_fd s
       \<and> (\<exists>rest. frame r = written r @ rest \<and> (completed r \<longleftrightarrow> rest = []))
       \<and> (client_fd s \<noteq> -1 \<and> (\<forall>k. 1 \<le> send_room i k) \<longrightarrow> completed r \<and> written r = frame r)"
proof -
  from sendSensorMessage_Inr[OF assms] obtain b s1 where
    bw: "bandwidth_usage i s (ByteSizeLong w (sensor_measurements s) mod 2 ^ 32) = Inr (b, s1)"
    and sa: "send_all i (client_fd s) (frame r) = (completed r, written r, send_calls r)"
    and s': "s' = s1\<lparr>sensor_measurements := Clear\<rparr>"
    by blast
  from bandwidth_usage_Inr[OF bw] s' have fd: "client_fd s' = client_fd s"
    by auto
  from sa have loop: "send_all_loop i (client_fd s) 0 (frame r) [] = (completed r, written r, send_calls r)"
    by (simp add: send_all_def)
  from send_all_loop_prefix[OF loop]
  have pre: "\<exists>rest. frame r = written r @ rest \<and> (completed r \<longleftrightarrow> rest = [])"
    by simp
  have "completed r \<and> written r = frame r"
    if "client_fd s \<noteq> -1" and "\<forall>k. 1 \<le> send_room i k"
  proof -
    from send_all_loop_completes[OF loop that(1)] that(2) have "completed r" by simp
    with pre show ?thesis by auto
  qed
  with fd pre show ?thesis by blast
qed

text \<open>
  A socket that takes five bytes per call: the 13 bytes of the frame go out in three calls.
\<close>
theorem C9_send_semantics_witness:
  "client_fd ready_server = 4
   \<and> client_fd (snd (projr slow_run)) = 4
   \<and> send_calls (fst (projr slow_run)) = 3
   \<and> completed (fst (projr slow_run))
   \<and> written (fst (projr slow_run)) = frame (fst (projr slow_run))"
proof -
  have fd: "client_fd ready_server = 4" by code_simp
  have calls: "send_calls (fst (projr slow_run)) = 3" by code_simp
  have room: "\<forall>k. 1 \<le> send_room slow_input k"
    by (simp add: slow_input_def demo_input_def)
  from C9_send_semantics[OF slow_run_Inr[unfolded slow_run_def]] fd calls room
  show ?thesis
    by (simp add: slow_run_def)
qed

text \<open>
  C9 as stated also says that the session is considered dead when a write fails. A step
  whose first write takes 3 of the 13 bytes and whose second write fails keeps descriptor 4,
  and the next step receives, builds and sends on it as before: the client then reads a
  whole frame in the middle of a broken one.
\<close>
theorem C9_failed_write_keeps_session:
  "map_sum id (\<lambda>r. (map (map_option (\<lambda>x. (completed x, length (written x), length (frame x))))
                       (map sent (fst r)),
                     map (map_option time) (map snapshot (fst r)),
                     client_fd (fst (snd r))))
     (steps demo_world
        [demo_input, demo_input\<lparr>send_room := (\<lambda>k. if k = 0 then 3 else -1)\<rparr>, demo_input]
        demo_server [])
   = Inr ([None, Some (False, 3, 13), Some (True, 13, 13)], [None, Some 32, Some 64], 4)"
  by code_simp

subsection \<open>C10: the quota window records the size that was checked\<close>




end
